theory Spec2Isabelle
  imports Complex_Main "HOL-Library.Word"
begin

section \<open>Tiered context (pkg/core/context.go)\<close>

text \<open>
  \<^verbatim>\<open>type ContextTier int\<close> with the constants \<^verbatim>\<open>TierL0 = iota\<close>, \<^verbatim>\<open>TierL1\<close>, \<^verbatim>\<open>TierL2\<close>.
  Any other integer is a value of the type as well; the switches of the source have
  their own treatment of it (\<^verbatim>\<open>Add\<close> falls back to L1, \<^verbatim>\<open>MoveToTier\<close> appends nowhere).
\<close>

type_synonym ContextTier = int

definition TierL0 :: ContextTier where "TierL0 = 0"
definition TierL1 :: ContextTier where "TierL1 = 1"
definition TierL2 :: ContextTier where "TierL2 = 2"

text \<open>
  The fields of \<^verbatim>\<open>Context\<close> that the tier lists and the window read or write. The tier
  lists hold the contexts by value; a context is identified by its URI, as every lookup
  of the source does (\<^verbatim>\<open>ctx.URI == uri\<close>). The source holds pointers: the one
  assignment through a pointer, \<^verbatim>\<open>ctx.Tier = tier\<close> in \<^verbatim>\<open>MoveToTier\<close>, is made here on
  the context that is appended.
\<close>

record Context =
  URI :: string
  Abstract :: string
  ActiveCount :: int
  Tier :: ContextTier

record TieredContext =
  L0 :: "Context list"
  L1 :: "Context list"
  L2 :: "Context list"

definition NewTieredContext :: TieredContext where
  "NewTieredContext = \<lparr>L0 = [], L1 = [], L2 = []\<rparr>"


definition GetAll :: "TieredContext \<Rightarrow> Context list" where
  "GetAll t = L0 t @ L1 t @ L2 t"

text \<open>
  \<^verbatim>\<open>removeFromSlice\<close> deletes the first context with the URI and says whether it found
  one; the slice is left as it was when it did not.
\<close>

fun removeFromSlice :: "Context list \<Rightarrow> string \<Rightarrow> bool \<times> Context list" where
  "removeFromSlice [] uri = (False, [])"
| "removeFromSlice (c # cs) uri =
     (if URI c = uri then (True, cs)
      else (case removeFromSlice cs uri of (found, cs') \<Rightarrow> (found, c # cs')))"

definition findContextByURIInSlices :: "Context list list \<Rightarrow> string \<Rightarrow> Context option" where
  "findContextByURIInSlices slices uri = find (\<lambda>c. URI c = uri) (concat slices)"

definition Remove :: "TieredContext \<Rightarrow> string \<Rightarrow> bool \<times> TieredContext" where
  "Remove t uri =
     (case removeFromSlice (L0 t) uri of
        (True, l0) \<Rightarrow> (True, t\<lparr>L0 := l0\<rparr>)
      | (False, _) \<Rightarrow>
     (case removeFromSlice (L1 t) uri of
        (True, l1) \<Rightarrow> (True, t\<lparr>L1 := l1\<rparr>)
      | (False, _) \<Rightarrow>
     (case removeFromSlice (L2 t) uri of
        (True, l2) \<Rightarrow> (True, t\<lparr>L2 := l2\<rparr>)
      | (False, _) \<Rightarrow> (False, t))))"

text \<open>
  The second half of \<^verbatim>\<open>MoveToTier\<close>, from \<^verbatim>\<open>if ctx == nil\<close> on: \<open>found\<close> is the
  value of \<^verbatim>\<open>ctx\<close> after the first removal (set only on the L0 branch), \<open>t\<close> the
  tiers after that removal. The early \<^verbatim>\<open>return false\<close> keeps the removal.
\<close>

definition MoveToTier_reinsert ::
  "TieredContext \<Rightarrow> Context option \<Rightarrow> string \<Rightarrow> ContextTier \<Rightarrow> bool \<times> TieredContext" where
  "MoveToTier_reinsert t found uri tier =
     (case (case found of
              Some c \<Rightarrow> Some c
            | None \<Rightarrow> findContextByURIInSlices [L0 t, L1 t, L2 t] uri) of
        None \<Rightarrow> (False, t)
      | Some ctx \<Rightarrow>
          (let t1 = t\<lparr>L0 := snd (removeFromSlice (L0 t) uri)\<rparr>;
               t2 = t1\<lparr>L1 := snd (removeFromSlice (L1 t1) uri)\<rparr>;
               t3 = t2\<lparr>L2 := snd (removeFromSlice (L2 t2) uri)\<rparr>;
               ctx' = ctx\<lparr>Tier := tier\<rparr>
           in (True,
               if tier = TierL0 then t3\<lparr>L0 := L0 t3 @ [ctx']\<rparr>
               else if tier = TierL1 then t3\<lparr>L1 := L1 t3 @ [ctx']\<rparr>
               else if tier = TierL2 then t3\<lparr>L2 := L2 t3 @ [ctx']\<rparr>
               else t3)))"

definition MoveToTier :: "TieredContext \<Rightarrow> string \<Rightarrow> ContextTier \<Rightarrow> bool \<times> TieredContext" where
  "MoveToTier t uri tier =
     (case removeFromSlice (L0 t) uri of
        (True, l0) \<Rightarrow>
          MoveToTier_reinsert (t\<lparr>L0 := l0\<rparr>) (findContextByURIInSlices [l0] uri) uri tier
      | (False, _) \<Rightarrow>
     (case removeFromSlice (L1 t) uri of
        (True, l1) \<Rightarrow> MoveToTier_reinsert (t\<lparr>L1 := l1\<rparr>) None uri tier
      | (False, _) \<Rightarrow>
     (case removeFromSlice (L2 t) uri of
        (True, l2) \<Rightarrow> MoveToTier_reinsert (t\<lparr>L2 := l2\<rparr>) None uri tier
      | (False, _) \<Rightarrow> (False, t))))"

text \<open>How many contexts of the three tiers carry the URI.\<close>

definition occurrences :: "TieredContext \<Rightarrow> string \<Rightarrow> nat" where
  "occurrences t uri = length (filter (\<lambda>c. URI c = uri) (GetAll t))"


section \<open>Context window (pkg/core/window.go)\<close>


record ContextWindowConfig =
  MaxTokens :: int
  MinL0Retention :: int
  CompressionRatio :: real
  PriorityTiers :: "ContextTier list"

definition DefaultContextWindowConfig :: ContextWindowConfig where
  "DefaultContextWindowConfig =
     \<lparr>MaxTokens = 128000, MinL0Retention = 1, CompressionRatio = 9 / 10,
      PriorityTiers = [TierL0, TierL1, TierL2]\<rparr>"


definition sum_tokens :: "(string \<Rightarrow> int) \<Rightarrow> Context list \<Rightarrow> int" where
  "sum_tokens cnt cs = sum_list (map (\<lambda>c. cnt (Abstract c)) cs)"











subsection \<open>Sample windows\<close>



definition ctx_c :: Context where
  "ctx_c = \<lparr>URI = ''viking://c'', Abstract = ''cccc'', ActiveCount = 0, Tier = TierL1\<rparr>"






section \<open>Session (package session)\<close>

text \<open>
  \<^verbatim>\<open>type State string\<close> and \<^verbatim>\<open>type Role string\<close> with their constants. Times are
  instants on some clock; \<^verbatim>\<open>time.Now()\<close> and \<^verbatim>\<open>uuid.New()\<close> are inputs of the
  functions that call them. The counters are \<^verbatim>\<open>int64\<close>. The free-form \<^verbatim>\<open>Metadata\<close>
  map of a session and the tool calls of a message, which no operation below reads, are
  left out.
\<close>

type_synonym State = string
type_synonym Role = string
type_synonym time = nat

definition StateActive :: State where "StateActive = ''active''"
definition StatePaused :: State where "StatePaused = ''paused''"
definition StateClosed :: State where "StateClosed = ''closed''"

definition RoleUser :: Role where "RoleUser = ''user''"
definition RoleAssistant :: Role where "RoleAssistant = ''assistant''"
definition RoleSystem :: Role where "RoleSystem = ''system''"
definition RoleTool :: Role where "RoleTool = ''tool''"

datatype session_error = ErrSessionNotFound | ErrSessionClosed | ErrInvalidState

record Message =
  MsgID :: string
  MsgSessionID :: string
  MsgRole :: Role
  MsgContent :: string
  MsgCreatedAt :: time

record Session =
  ID :: string
  SessionID :: string
  UserID :: string
  State :: State
  TotalTurns :: "64 word"
  TotalTokens :: "64 word"
  CompressionCount :: "64 word"
  ContextsUsed :: "64 word"
  SkillsUsed :: "64 word"
  MemoriesExtracted :: "64 word"
  Summary :: string
  CreatedAt :: time
  UpdatedAt :: time
  ClosedAt :: "time option"

definition NewSession :: "string \<Rightarrow> string \<Rightarrow> time \<Rightarrow> string \<Rightarrow> Session" where
  "NewSession uuid1 uuid2 now userID =
     \<lparr>ID = uuid1, SessionID = uuid2, UserID = userID, State = StateActive,
      TotalTurns = 0, TotalTokens = 0, CompressionCount = 0, ContextsUsed = 0,
      SkillsUsed = 0, MemoriesExtracted = 0, Summary = [],
      CreatedAt = now, UpdatedAt = now, ClosedAt = None\<rparr>"

text \<open>
  \<^verbatim>\<open>func (s *Session) AddMessage(role Role, content string) *Message\<close>: the result is
  the message, never nil, and there is no error result. \<open>now1\<close> and \<open>now2\<close> are the two
  readings of the clock.
\<close>

definition AddMessage ::
  "string \<Rightarrow> time \<Rightarrow> time \<Rightarrow> Role \<Rightarrow> string \<Rightarrow> Session \<Rightarrow> Message \<times> Session" where
  "AddMessage uuid now1 now2 role content s =
     (\<lparr>MsgID = uuid, MsgSessionID = SessionID s, MsgRole = role, MsgContent = content,
       MsgCreatedAt = now1\<rparr>,
      s\<lparr>TotalTurns := TotalTurns s + 1, UpdatedAt := now2\<rparr>)"

definition Pause :: "time \<Rightarrow> Session \<Rightarrow> session_error option \<times> Session" where
  "Pause now s =
     (if State s \<noteq> StateActive then (Some ErrInvalidState, s)
      else (None, s\<lparr>State := StatePaused, UpdatedAt := now\<rparr>))"

definition Resume :: "time \<Rightarrow> Session \<Rightarrow> session_error option \<times> Session" where
  "Resume now s =
     (if State s \<noteq> StatePaused then (Some ErrInvalidState, s)
      else (None, s\<lparr>State := StateActive, UpdatedAt := now\<rparr>))"

definition Close :: "time \<Rightarrow> Session \<Rightarrow> session_error option \<times> Session" where
  "Close now s =
     (if State s = StateClosed then (Some ErrSessionClosed, s)
      else (None, s\<lparr>State := StateClosed, ClosedAt := Some now, UpdatedAt := now\<rparr>))"

text \<open>A session created at time 1 and closed at time 5.\<close>

definition closed_session :: Session where
  "closed_session = snd (Close 5 (NewSession ''id-1'' ''sid-1'' 1 ''user123''))"


section \<open>Memory deduper (package session, MemoryDeduper)\<close>

text \<open>
  Importance and similarity are \<^verbatim>\<open>float64\<close> in the source; they are real numbers here,
  so the arithmetic is exact. Texts are byte strings, and \<^verbatim>\<open>strings.ToLower\<close>,
  \<^verbatim>\<open>strings.Fields\<close> are modelled as they act on ASCII text: the letters A to Z are
  lowered, and the separators are space, tab, line feed, vertical tab, form feed and
  carriage return.
\<close>

record ExtractedMemory =
  Content :: string
  Importance :: real
  Category :: string
  MemSessionID :: string
  MemCreatedAt :: time

definition ToLower_char :: "char \<Rightarrow> char" where
  "ToLower_char c =
     (case map_of (zip ''ABCDEFGHIJKLMNOPQRSTUVWXYZ'' ''abcdefghijklmnopqrstuvwxyz'') c of
        Some l \<Rightarrow> l
      | None \<Rightarrow> c)"

definition ToLower :: "string \<Rightarrow> string" where
  "ToLower s = map ToLower_char s"

definition asciiSpace :: "char \<Rightarrow> bool" where
  "asciiSpace c \<longleftrightarrow> c \<in> {CHR 0x09, CHR 0x0A, CHR 0x0B, CHR 0x0C, CHR 0x0D, CHR '' ''}"

text \<open>\<open>cur\<close> is the field being read, empty between fields.\<close>

fun Fields_from :: "string \<Rightarrow> string \<Rightarrow> string list" where
  "Fields_from [] cur = (if cur = [] then [] else [cur])"
| "Fields_from (c # cs) cur =
     (if asciiSpace c then (if cur = [] then Fields_from cs [] else cur # Fields_from cs [])
      else Fields_from cs (cur @ [c]))"

definition Fields :: "string \<Rightarrow> string list" where
  "Fields s = Fields_from s []"

fun Contains :: "string \<Rightarrow> string \<Rightarrow> bool" where
  "Contains [] sub = (sub = [])"
| "Contains (c # cs) sub = (take (length sub) (c # cs) = sub \<or> Contains cs sub)"

text \<open>
  \<^verbatim>\<open>calculateSimilarity\<close>: the keys of the two word-count maps are the distinct words;
  \<^verbatim>\<open>common\<close> counts the keys of the first map that the second has.
\<close>

definition calculateSimilarity :: "string \<Rightarrow> string \<Rightarrow> real" where
  "calculateSimilarity a b =
     (let wordsA = Fields (ToLower a); wordsB = Fields (ToLower b) in
      if wordsA = [] \<or> wordsB = [] then 0
      else
        (let keysA = remdups wordsA; keysB = remdups wordsB;
             common = int (length (filter (\<lambda>w. w \<in> set keysB) keysA));
             total = int (length keysA) + int (length keysB) - common
         in if total = 0 then 1 else real_of_int common / real_of_int total))"

text \<open>
  A group is never empty: it is created as \<^verbatim>\<open>[]*ExtractedMemory{m}\<close> and only appended
  to. It is kept as its first member, \<^verbatim>\<open>group[0]\<close>, and the members after it.
\<close>

type_synonym memory_group = "ExtractedMemory \<times> ExtractedMemory list"

definition members :: "memory_group \<Rightarrow> ExtractedMemory list" where
  "members g = fst g # snd g"

text \<open>The inner loop of \<^verbatim>\<open>groupSimilar\<close> for one memory \<open>m\<close>, and the outer loop.\<close>

fun insert_group :: "real \<Rightarrow> ExtractedMemory \<Rightarrow> memory_group list \<Rightarrow> memory_group list" where
  "insert_group th m [] = [(m, [])]"
| "insert_group th m ((g0, rest) # gs) =
     (if calculateSimilarity (Content m) (Content g0) \<ge> th then (g0, rest @ [m]) # gs
      else (g0, rest) # insert_group th m gs)"

definition groupSimilar :: "real \<Rightarrow> ExtractedMemory list \<Rightarrow> memory_group list" where
  "groupSimilar th memories = foldl (\<lambda>gs m. insert_group th m gs) [] memories"

datatype DedupDecision =
  DedupDecisionMerge | DedupDecisionCreate | DedupDecisionDelete | DedupDecisionKeepBoth

text \<open>
  \<^verbatim>\<open>parseDecisions\<close>, called with \<open>count\<close> at least 2 (with \<open>count = 0\<close> the source
  would index an empty slice).
\<close>

definition parseDecisions :: "string \<Rightarrow> nat \<Rightarrow> DedupDecision list" where
  "parseDecisions response count =
     (let decisions = replicate count DedupDecisionKeepBoth;
          lower = ToLower response
      in if Contains lower ''merge''
           then DedupDecisionMerge # replicate (count - 1) DedupDecisionDelete
         else if Contains lower ''keep'' then decisions
         else decisions[0 := DedupDecisionMerge])"

text \<open>
  What the provider's \<^verbatim>\<open>Chat\<close> gives back to \<^verbatim>\<open>decideMergeOrDelete\<close>: an error, a
  response without choices, or the content of the first choice. The provider is a
  function of the number of calls made before and of the group it is asked about.
\<close>

datatype ChatResult = ChatError | NoChoices | Reply string

type_synonym llm_client = "nat \<Rightarrow> ExtractedMemory list \<Rightarrow> ChatResult"

text \<open>\<open>None\<close> is the error result; \<open>Some []\<close> is \<^verbatim>\<open>nil, nil\<close>.\<close>

definition decideMergeOrDelete :: "ChatResult \<Rightarrow> ExtractedMemory list \<Rightarrow> DedupDecision list option" where
  "decideMergeOrDelete chat memories =
     (if length memories = 0 then Some []
      else if length memories = 1 then Some [DedupDecisionCreate]
      else (case chat of
              ChatError \<Rightarrow> None
            | NoChoices \<Rightarrow> Some []
            | Reply content \<Rightarrow> Some (parseDecisions content (length memories))))"

fun simpleMerge_loop :: "ExtractedMemory \<Rightarrow> ExtractedMemory list \<Rightarrow> ExtractedMemory" where
  "simpleMerge_loop best [] = best"
| "simpleMerge_loop best (m # ms) =
     (if Importance m > Importance best then simpleMerge_loop m ms else simpleMerge_loop best ms)"

definition simpleMerge :: "memory_group \<Rightarrow> ExtractedMemory" where
  "simpleMerge g = simpleMerge_loop (fst g) (snd g)"

text \<open>
  The loop over the decisions: \<open>i\<close> is the index, the second list the members from
  index \<open>i\<close> on. There are never more decisions than members.
\<close>

fun apply_decisions :: "nat \<Rightarrow> DedupDecision list \<Rightarrow> ExtractedMemory list \<Rightarrow> ExtractedMemory list" where
  "apply_decisions i (d # ds) (m # ms) =
     (case d of
        DedupDecisionMerge \<Rightarrow> m # apply_decisions (Suc i) ds ms
      | DedupDecisionKeepBoth \<Rightarrow>
          (if i = 0 then m # apply_decisions (Suc i) ds ms else apply_decisions (Suc i) ds ms)
      | DedupDecisionCreate \<Rightarrow> m # apply_decisions (Suc i) ds ms
      | DedupDecisionDelete \<Rightarrow> apply_decisions (Suc i) ds ms)"
| "apply_decisions i ds ms = []"

text \<open>What one group contributes to the result; \<open>chat\<close> is the provider's answer for it.\<close>

definition dedup_group :: "ChatResult \<Rightarrow> memory_group \<Rightarrow> ExtractedMemory list" where
  "dedup_group chat g =
     (case decideMergeOrDelete chat (members g) of
        None \<Rightarrow> [simpleMerge g]
      | Some decisions \<Rightarrow> apply_decisions 0 decisions (members g))"

text \<open>The second pass of \<^verbatim>\<open>Dedup\<close>; \<open>n\<close> counts the calls of the provider so far.\<close>

fun dedup_groups :: "llm_client \<Rightarrow> nat \<Rightarrow> memory_group list \<Rightarrow> ExtractedMemory list" where
  "dedup_groups llm n [] = []"
| "dedup_groups llm n (g # gs) =
     (if length (members g) \<le> 1 then fst g # dedup_groups llm n gs
      else dedup_group (llm n (members g)) g @ dedup_groups llm (Suc n) gs)"

record MemoryDeduper =
  client :: llm_client
  threshold :: real

definition NewMemoryDeduper :: "llm_client \<Rightarrow> real \<Rightarrow> MemoryDeduper" where
  "NewMemoryDeduper c th = \<lparr>client = c, threshold = (if th = 0 then 8 / 10 else th)\<rparr>"

text \<open>\<^verbatim>\<open>Dedup\<close>; its error result is always nil.\<close>

definition Dedup :: "MemoryDeduper \<Rightarrow> ExtractedMemory list \<Rightarrow> ExtractedMemory list" where
  "Dedup d memories =
     (if length memories \<le> 1 then memories
      else dedup_groups (client d) 0 (groupSimilar (threshold d) memories))"

datatype merge_error = DifferentCategories

definition MergeMemories :: "ExtractedMemory \<Rightarrow> ExtractedMemory \<Rightarrow> merge_error + ExtractedMemory" where
  "MergeMemories a b =
     (if Category a \<noteq> Category b then Inl DifferentCategories
      else
        (let base = (if Importance b > Importance a then b else a);
             combinedImportance = min 1 ((Importance a + Importance b) * (9 / 10))
         in Inr \<lparr>Content = Content base, Importance = combinedImportance,
                 Category = Category base, MemSessionID = MemSessionID base,
                 MemCreatedAt = MemCreatedAt base\<rparr>))"

text \<open>Two memories whose contents are less similar than the threshold.\<close>

definition dissimilar :: "real \<Rightarrow> ExtractedMemory \<Rightarrow> ExtractedMemory \<Rightarrow> bool" where
  "dissimilar th x y \<longleftrightarrow> calculateSimilarity (Content x) (Content y) < th"

subsection \<open>Sample memories\<close>

definition mem_xy :: ExtractedMemory where
  "mem_xy = \<lparr>Content = ''x y'', Importance = 5 / 10, Category = ''preference'',
             MemSessionID = ''s'', MemCreatedAt = 1\<rparr>"

definition mem_yzw :: ExtractedMemory where
  "mem_yzw = \<lparr>Content = ''y z w'', Importance = 7 / 10, Category = ''preference'',
              MemSessionID = ''s'', MemCreatedAt = 2\<rparr>"

definition mem_xyz :: ExtractedMemory where
  "mem_xyz = \<lparr>Content = ''X Y z'', Importance = 9 / 10, Category = ''preference'',
              MemSessionID = ''s'', MemCreatedAt = 3\<rparr>"

definition failing_client :: llm_client where
  "failing_client n g = ChatError"

definition merging_client :: llm_client where
  "merging_client n g = Reply ''MERGE''"

definition mem_event :: ExtractedMemory where
  "mem_event = \<lparr>Content = ''met Ada'', Importance = 3 / 10, Category = ''event'',
                MemSessionID = ''s'', MemCreatedAt = 4\<rparr>"


section \<open>Hierarchical retriever (pkg/retrieval/retriever.go)\<close>

text \<open>
  Scores are \<^verbatim>\<open>float64\<close> in the source and real numbers here. The record fields carry a
  prefix where two structs of the source share a field name.
\<close>

record SearchResult =
  ResURI :: string
  ResScore :: real
  ResAbstract :: string
  ResIsLeaf :: bool
  ResParentURI :: string

record RetrievalResult =
  CandURI :: string
  CandScore :: real
  CandIsLeaf :: bool
  CandAbstract :: string
  CandParentURI :: string

record HeapItem =
  ItemURI :: string
  ItemScore :: real

record RetrieverConfig =
  MaxConvergenceRounds :: int
  MaxRelations :: int
  ScorePropagationAlpha :: real
  DirectoryDominanceRatio :: real
  GlobalSearchTopK :: int
  CfgScoreThreshold :: real

definition DefaultRetrieverConfig :: RetrieverConfig where
  "DefaultRetrieverConfig =
     \<lparr>MaxConvergenceRounds = 3, MaxRelations = 5, ScorePropagationAlpha = 1 / 2,
      DirectoryDominanceRatio = 12 / 10, GlobalSearchTopK = 3, CfgScoreThreshold = 0\<rparr>"

subsection \<open>The priority queue: \<^verbatim>\<open>SearchResultHeap\<close> under \<^verbatim>\<open>container/heap\<close>\<close>

text \<open>
  \<^verbatim>\<open>Less(i, j)\<close> is \<^verbatim>\<open>h[i].Score < h[j].Score\<close>. \<^verbatim>\<open>heap.Push\<close> appends and sifts the
  new element up; \<^verbatim>\<open>heap.Pop\<close> swaps the root with the last element, sifts the new root
  down over the first \<open>n - 1\<close> elements and removes the last element. These are the
  functions \<^verbatim>\<open>up\<close> and \<^verbatim>\<open>down\<close> of the Go library, which keep at the root an element
  that is \<^verbatim>\<open>Less\<close> than no other.
\<close>

definition Less :: "SearchResult list \<Rightarrow> nat \<Rightarrow> nat \<Rightarrow> bool" where
  "Less h i j \<longleftrightarrow> ResScore (h ! i) < ResScore (h ! j)"

definition Swap :: "SearchResult list \<Rightarrow> nat \<Rightarrow> nat \<Rightarrow> SearchResult list" where
  "Swap h i j = h[i := h ! j, j := h ! i]"

function up :: "SearchResult list \<Rightarrow> nat \<Rightarrow> SearchResult list" where
  "up h j =
     (let i = (j - 1) div 2 in
      if i = j \<or> \<not> Less h j i then h else up (Swap h i j) i)"
  by pat_completeness auto
termination
  by (relation "measure (\<lambda>(h, j). j)") auto

function down :: "SearchResult list \<Rightarrow> nat \<Rightarrow> nat \<Rightarrow> SearchResult list" where
  "down h i n =
     (let j1 = 2 * i + 1 in
      if j1 \<ge> n then h
      else
        (let j = (if j1 + 1 < n \<and> Less h (j1 + 1) j1 then j1 + 1 else j1) in
         if \<not> Less h j i then h else down (Swap h i j) j n))"
  by pat_completeness auto
termination
  by (relation "measure (\<lambda>(h, i, n). n - i)") (auto split: if_splits)

declare up.simps [simp del] down.simps [simp del]

definition heap_Push :: "SearchResult list \<Rightarrow> SearchResult \<Rightarrow> SearchResult list" where
  "heap_Push h x = up (h @ [x]) (length h)"

text \<open>\<^verbatim>\<open>heap.Pop\<close> on an empty queue would index out of range; the loop never does it.\<close>

definition heap_Pop :: "SearchResult list \<Rightarrow> (SearchResult \<times> SearchResult list) option" where
  "heap_Pop h =
     (if h = [] then None
      else
        (let n = length h - 1;
             h' = down (Swap h 0 n) 0 n
         in Some (h' ! n, take n h')))"

subsection \<open>The traversal\<close>

type_synonym EmbedResult = "real list"

text \<open>
  \<^verbatim>\<open>VectorStore.Search(ctx, query, limit, filter)\<close>: the filter is nil (\<open>None\<close>) for the
  global search and \<^verbatim>\<open>parent_uri = u\<close> (\<open>Some u\<close>) for the children of \<open>u\<close>; the result
  \<open>None\<close> is an error. The embedder maps the query text to a vector, or fails. Either
  may be nil.
\<close>

type_synonym VectorStore = "EmbedResult option \<Rightarrow> int \<Rightarrow> string option \<Rightarrow> SearchResult list option"

record HierarchicalRetriever =
  retrieverConfig :: RetrieverConfig
  embedder :: "(string \<Rightarrow> EmbedResult option) option"
  vectorStore :: "VectorStore option"

text \<open>
  \<^verbatim>\<open>SearchOptions.Limit\<close> is an \<^verbatim>\<open>int\<close>; with a negative limit the source panics at
  \<^verbatim>\<open>results[:k]\<close>. Limits are natural numbers here.
\<close>

record SearchOptions =
  Limit :: nat
  ScoreThreshold :: real
  ScoreGTE :: bool
  TargetDirectories :: "string list"

type_synonym ContextType = string

record TypedQuery =
  Query :: string
  QueryContextType :: ContextType

record MatchedContext =
  MatchURI :: string
  MatchContextType :: ContextType
  MatchIsLeaf :: bool
  MatchAbstract :: string
  MatchScore :: real

record QueryResult =
  ResultQuery :: TypedQuery
  MatchedContexts :: "MatchedContext list"
  SearchedDirectories :: "string list"

datatype retrieval_error = EmbedFailed | Cancelled | RecursiveSearchFailed retrieval_error

definition getTopK :: "RetrievalResult list \<Rightarrow> nat \<Rightarrow> RetrievalResult list" where
  "getTopK results k = (if k \<ge> length results then results else take k results)"

text \<open>
  The maps \<^verbatim>\<open>map[string]bool\<close> of the loop only ever hold the value true; they are the
  sets of their keys.
\<close>

definition mapsEqual :: "string set \<Rightarrow> string set \<Rightarrow> bool" where
  "mapsEqual a b \<longleftrightarrow> card a = card b \<and> a \<subseteq> b"

definition searchChildren ::
  "HierarchicalRetriever \<Rightarrow> string \<Rightarrow> EmbedResult option \<Rightarrow> int \<Rightarrow> SearchResult list option" where
  "searchChildren hr parentURI queryVector limit =
     (case vectorStore hr of
        None \<Rightarrow> Some []
      | Some store \<Rightarrow> store queryVector limit (Some parentURI))"

text \<open>
  The variables of \<^verbatim>\<open>recursiveSearch\<close>, and of the trajectory the nodes (URI, depth and
  score of every directory searched, in order) and the edges. The events of the thinking
  trace are a log that nothing reads back; they are left out.
\<close>

record search_state =
  dirQueue :: "SearchResult list"
  visited :: "string set"
  collected :: "RetrievalResult list"
  prevTopKURIs :: "string set"
  convergenceRounds :: int
  depth :: nat
  nodes :: "(string \<times> nat \<times> real) list"
  edges :: "(string \<times> string) list"

text \<open>The loop over the children of the directory \<open>currentURI\<close>.\<close>

fun process_children ::
  "real \<Rightarrow> SearchOptions \<Rightarrow> string \<Rightarrow> real \<Rightarrow> SearchResult list \<Rightarrow> search_state \<Rightarrow> search_state" where
  "process_children alpha opts currentURI currentScore [] st = st"
| "process_children alpha opts currentURI currentScore (child # rest) st =
     (let finalScore = alpha * ResScore child + (1 - alpha) * currentScore;
          thresholdPassed =
            (if ScoreGTE opts then finalScore \<ge> ScoreThreshold opts
             else finalScore > ScoreThreshold opts)
      in if \<not> thresholdPassed then process_children alpha opts currentURI currentScore rest st
         else
           (let alreadyCollected = (ResURI child \<in> CandURI ` set (collected st));
                st1 = (if \<not> alreadyCollected
                       then st\<lparr>collected := collected st @
                              [\<lparr>CandURI = ResURI child, CandScore = finalScore,
                                CandIsLeaf = ResIsLeaf child, CandAbstract = ResAbstract child,
                                CandParentURI = []\<rparr>]\<rparr>
                       else st);
                st2 = (if \<not> ResIsLeaf child
                       then st1\<lparr>dirQueue := heap_Push (dirQueue st1)
                                   \<lparr>ResURI = ResURI child, ResScore = finalScore,
                                    ResAbstract = [], ResIsLeaf = False, ResParentURI = []\<rparr>,
                                 edges := edges st1 @ [(currentURI, ResURI child)]\<rparr>
                       else st1)
            in process_children alpha opts currentURI currentScore rest st2))"

text \<open>
  After the loop: \<^verbatim>\<open>sort.Slice\<close> by descending score, then the cut at the limit. The
  order of candidates of equal score is the library's; insertion order is kept here.
\<close>

definition sort_by_score :: "RetrievalResult list \<Rightarrow> RetrievalResult list" where
  "sort_by_score cs = sort_key (\<lambda>c. - CandScore c) cs"

definition finish :: "SearchOptions \<Rightarrow> search_state \<Rightarrow> search_state" where
  "finish opts st =
     (let sorted = sort_by_score (collected st) in
      st\<lparr>collected := (if length sorted > Limit opts then take (Limit opts) sorted else sorted)\<rparr>)"

text \<open>
  The convergence check at the end of an iteration. The first component says whether
  the loop breaks; when it goes on, the previous set is replaced and the depth counted.
\<close>

definition convergence_check ::
  "RetrieverConfig \<Rightarrow> SearchOptions \<Rightarrow> search_state \<Rightarrow> bool \<times> search_state" where
  "convergence_check cfg opts st =
     (let currentTopK = getTopK (collected st) (Limit opts);
          currentTopKURIs = CandURI ` set currentTopK
      in if mapsEqual currentTopKURIs (prevTopKURIs st) \<and> card currentTopKURIs \<ge> Limit opts
           then
             (let rounds = convergenceRounds st + 1 in
              if rounds \<ge> MaxConvergenceRounds cfg
                then (True, st\<lparr>convergenceRounds := rounds\<rparr>)
              else (False, st\<lparr>convergenceRounds := rounds,
                               prevTopKURIs := currentTopKURIs,
                               depth := depth st + 1\<rparr>))
         else (False, st\<lparr>convergenceRounds := 0,
                          prevTopKURIs := currentTopKURIs,
                          depth := depth st + 1\<rparr>))"

text \<open>
  The main loop. \<open>cancelled i\<close> says whether \<^verbatim>\<open>ctx.Done()\<close> is ready at the \<open>i\<close>-th
  check, the one at the head of iteration \<open>i\<close>. The store may describe an endless
  hierarchy, so the loop runs on fuel: \<open>None\<close> means the fuel ran out before the loop
  ended. The result is the final state (its \<open>collected\<close> is the slice returned) and the
  error.
\<close>

fun search_loop ::
  "HierarchicalRetriever \<Rightarrow> EmbedResult option \<Rightarrow> SearchOptions \<Rightarrow> (nat \<Rightarrow> bool) \<Rightarrow> nat \<Rightarrow> nat
     \<Rightarrow> search_state \<Rightarrow> (search_state \<times> retrieval_error option) option" where
  "search_loop hr qv opts cancelled 0 i st = None"
| "search_loop hr qv opts cancelled (Suc fuel) i st =
     (if dirQueue st = [] then Some (finish opts st, None)
      else if cancelled i then Some (st, Some Cancelled)
      else
        (case heap_Pop (dirQueue st) of
           None \<Rightarrow> Some (finish opts st, None)
         | Some (item, queue) \<Rightarrow>
             (let currentURI = ResURI item; currentScore = ResScore item;
                  st0 = st\<lparr>dirQueue := queue\<rparr>
              in if currentURI \<in> visited st0
                   then search_loop hr qv opts cancelled fuel (Suc i) st0
                 else
                   (let st1 = st0\<lparr>visited := insert currentURI (visited st0),
                                  nodes := nodes st0 @ [(currentURI, depth st0, currentScore)]\<rparr>
                    in case searchChildren hr currentURI qv (int (Limit opts) * 2) of
                         None \<Rightarrow> search_loop hr qv opts cancelled fuel (Suc i) st1
                       | Some children \<Rightarrow>
                           (let st2 = process_children
                                        (ScorePropagationAlpha (retrieverConfig hr)) opts
                                        currentURI currentScore children st1;
                                check = convergence_check (retrieverConfig hr) opts st2
                            in if fst check then Some (finish opts (snd check), None)
                               else search_loop hr qv opts cancelled fuel (Suc i) (snd check))))))"

definition initial_state :: "HeapItem list \<Rightarrow> search_state" where
  "initial_state startingPoints =
     \<lparr>dirQueue = foldl (\<lambda>h sp. heap_Push h
                      \<lparr>ResURI = ItemURI sp, ResScore = ItemScore sp, ResAbstract = [],
                       ResIsLeaf = False, ResParentURI = []\<rparr>) [] startingPoints,
      visited = {}, collected = [], prevTopKURIs = {}, convergenceRounds = 0, depth = 0,
      nodes = [], edges = []\<rparr>"

definition recursiveSearch ::
  "HierarchicalRetriever \<Rightarrow> EmbedResult option \<Rightarrow> SearchOptions \<Rightarrow> (nat \<Rightarrow> bool) \<Rightarrow> nat
     \<Rightarrow> HeapItem list \<Rightarrow> (search_state \<times> retrieval_error option) option" where
  "recursiveSearch hr qv opts cancelled fuel startingPoints =
     search_loop hr qv opts cancelled fuel 0 (initial_state startingPoints)"

definition ContextTypeMemory :: ContextType where "ContextTypeMemory = ''memory''"
definition ContextTypeResource :: ContextType where "ContextTypeResource = ''resource''"
definition ContextTypeSkill :: ContextType where "ContextTypeSkill = ''skill''"

definition getRootURIsForType :: "ContextType \<Rightarrow> string list" where
  "getRootURIsForType contextType =
     (if contextType = ContextTypeMemory
        then [''viking://user/memories'', ''viking://agent/memories'']
      else if contextType = ContextTypeResource then [''viking://resources'']
      else if contextType = ContextTypeSkill then [''viking://agent/skills'']
      else [])"

definition getGlobalSearchResults ::
  "HierarchicalRetriever \<Rightarrow> EmbedResult option \<Rightarrow> SearchResult list" where
  "getGlobalSearchResults hr queryVector =
     (case (queryVector, vectorStore hr) of
        (Some v, Some store) \<Rightarrow>
          (case store (Some v) (GlobalSearchTopK (retrieverConfig hr)) None of
             None \<Rightarrow> []
           | Some results \<Rightarrow> results)
      | _ \<Rightarrow> [])"

fun merge_roots :: "string list \<Rightarrow> HeapItem list \<Rightarrow> string set \<Rightarrow> HeapItem list" where
  "merge_roots [] items seen = items"
| "merge_roots (uri # uris) items seen =
     (if uri \<notin> seen
        then merge_roots uris (items @ [\<lparr>ItemURI = uri, ItemScore = 0\<rparr>]) (insert uri seen)
      else merge_roots uris items seen)"

definition mergeStartingPoints :: "string list \<Rightarrow> SearchResult list \<Rightarrow> HeapItem list" where
  "mergeStartingPoints rootURIs globalResults =
     merge_roots rootURIs
       (map (\<lambda>r. \<lparr>ItemURI = ResURI r, ItemScore = ResScore r\<rparr>) globalResults)
       (ResURI ` set globalResults)"

definition convertToMatchedContexts :: "RetrievalResult list \<Rightarrow> ContextType \<Rightarrow> MatchedContext list" where
  "convertToMatchedContexts candidates contextType =
     map (\<lambda>c. \<lparr>MatchURI = CandURI c, MatchContextType = contextType, MatchIsLeaf = CandIsLeaf c,
                MatchAbstract = CandAbstract c, MatchScore = CandScore c\<rparr>) candidates"

text \<open>
  The first steps of \<^verbatim>\<open>Retrieve\<close>: the target directories, the query vector (\<open>None\<close>
  when the embedder fails, \<open>Some None\<close> when there is no embedder) and the starting
  points handed to \<^verbatim>\<open>recursiveSearch\<close>.
\<close>

definition targetDirsFor :: "TypedQuery \<Rightarrow> SearchOptions \<Rightarrow> string list" where
  "targetDirsFor query opts =
     (if TargetDirectories opts = [] then getRootURIsForType (QueryContextType query)
      else TargetDirectories opts)"

definition embedQuery :: "HierarchicalRetriever \<Rightarrow> TypedQuery \<Rightarrow> EmbedResult option option" where
  "embedQuery hr query =
     (case embedder hr of
        None \<Rightarrow> Some None
      | Some emb \<Rightarrow> (case emb (Query query) of None \<Rightarrow> None | Some v \<Rightarrow> Some (Some v)))"

definition startingPointsFor ::
  "HierarchicalRetriever \<Rightarrow> EmbedResult option \<Rightarrow> TypedQuery \<Rightarrow> SearchOptions \<Rightarrow> HeapItem list" where
  "startingPointsFor hr queryVector query opts =
     mergeStartingPoints (targetDirsFor query opts) (getGlobalSearchResults hr queryVector)"

text \<open>
  \<^verbatim>\<open>Retrieve\<close>: \<open>None\<close> when the fuel of the traversal ran out, else the error or the
  query result that the caller gets.
\<close>

definition Retrieve ::
  "HierarchicalRetriever \<Rightarrow> (nat \<Rightarrow> bool) \<Rightarrow> nat \<Rightarrow> TypedQuery \<Rightarrow> SearchOptions
     \<Rightarrow> (retrieval_error + QueryResult) option" where
  "Retrieve hr cancelled fuel query opts =
     (case embedQuery hr query of
        None \<Rightarrow> Some (Inl EmbedFailed)
      | Some queryVector \<Rightarrow>
          (case recursiveSearch hr queryVector opts cancelled fuel
                  (startingPointsFor hr queryVector query opts) of
             None \<Rightarrow> None
           | Some (st, Some err) \<Rightarrow> Some (Inl (RecursiveSearchFailed err))
           | Some (st, None) \<Rightarrow>
               Some (Inr \<lparr>ResultQuery = query,
                          MatchedContexts =
                            convertToMatchedContexts (collected st) (QueryContextType query),
                          SearchedDirectories = targetDirsFor query opts\<rparr>)))"

subsection \<open>A sample store\<close>

text \<open>
  The directory \<open>viking://resources\<close> holds the directory \<open>docs\<close> and the leaf \<open>api\<close>;
  \<open>docs\<close> holds the leaves \<open>guide\<close> and \<open>intro\<close>. The global search finds \<open>docs\<close>.
\<close>

definition sample_store :: VectorStore where
  "sample_store queryVector limit flt =
     (case flt of
        None \<Rightarrow>
          Some [\<lparr>ResURI = ''viking://resources/docs'', ResScore = 9 / 10, ResAbstract = ''docs'',
                 ResIsLeaf = False, ResParentURI = ''viking://resources''\<rparr>]
      | Some parent \<Rightarrow>
          if parent = ''viking://resources'' then
            Some [\<lparr>ResURI = ''viking://resources/docs'', ResScore = 8 / 10, ResAbstract = ''docs'',
                   ResIsLeaf = False, ResParentURI = ''viking://resources''\<rparr>,
                  \<lparr>ResURI = ''viking://resources/api'', ResScore = 6 / 10, ResAbstract = ''api'',
                   ResIsLeaf = True, ResParentURI = ''viking://resources''\<rparr>]
          else if parent = ''viking://resources/docs'' then
            Some [\<lparr>ResURI = ''viking://resources/docs/guide'', ResScore = 4 / 10,
                   ResAbstract = ''guide'', ResIsLeaf = True,
                   ResParentURI = ''viking://resources/docs''\<rparr>,
                  \<lparr>ResURI = ''viking://resources/docs/intro'', ResScore = 7 / 10,
                   ResAbstract = ''intro'', ResIsLeaf = True,
                   ResParentURI = ''viking://resources/docs''\<rparr>]
          else Some [])"

definition sample_retriever :: HierarchicalRetriever where
  "sample_retriever =
     \<lparr>retrieverConfig = DefaultRetrieverConfig,
      embedder = Some (\<lambda>q. Some [1]),
      vectorStore = Some sample_store\<rparr>"

definition sample_options :: SearchOptions where
  "sample_options = \<lparr>Limit = 2, ScoreThreshold = 0, ScoreGTE = False, TargetDirectories = []\<rparr>"

definition sample_query :: TypedQuery where
  "sample_query = \<lparr>Query = ''how to call the api'', QueryContextType = ContextTypeResource\<rparr>"

definition item_docs :: SearchResult where
  "item_docs = \<lparr>ResURI = ''viking://resources/docs'', ResScore = 9 / 10, ResAbstract = [],
                ResIsLeaf = False, ResParentURI = []\<rparr>"

definition item_root :: SearchResult where
  "item_root = \<lparr>ResURI = ''viking://resources'', ResScore = 0, ResAbstract = [],
                ResIsLeaf = False, ResParentURI = []\<rparr>"

definition cand_docs :: RetrievalResult where
  "cand_docs = \<lparr>CandURI = ''viking://resources/docs'', CandScore = 4 / 10, CandIsLeaf = False,
                CandAbstract = ''docs'', CandParentURI = []\<rparr>"

definition cand_api :: RetrievalResult where
  "cand_api = \<lparr>CandURI = ''viking://resources/api'', CandScore = 3 / 10, CandIsLeaf = True,
               CandAbstract = ''api'', CandParentURI = []\<rparr>"

definition cand_guide :: RetrievalResult where
  "cand_guide = \<lparr>CandURI = ''viking://resources/docs/guide'', CandScore = 4 / 10,
                 CandIsLeaf = True, CandAbstract = ''guide'', CandParentURI = []\<rparr>"

definition cand_intro :: RetrievalResult where
  "cand_intro = \<lparr>CandURI = ''viking://resources/docs/intro'', CandScore = 55 / 100,
                 CandIsLeaf = True, CandAbstract = ''intro'', CandParentURI = []\<rparr>"


section \<open>Text compression (pkg/core/compression.go)\<close>

text \<open>
  A Go string is its bytes; \<open>string\<close> is the list of them.

  \<^verbatim>\<open>base64.StdEncoding\<close>: the alphabet of RFC 4648 with \<open>=\<close> padding. A value below 64
  is written as \<open>b64_char\<close> of it, and \<open>b64_value\<close> reads a character back.
\<close>

definition b64_alphabet :: string where
  "b64_alphabet = ''ABCDEFGHIJKLMNOPQRSTUVWXYZabcdefghijklmnopqrstuvwxyz0123456789+/''"

definition b64_char :: "nat \<Rightarrow> char" where
  "b64_char n = b64_alphabet ! n"

fun index_of :: "'a \<Rightarrow> 'a list \<Rightarrow> nat option" where
  "index_of x [] = None"
| "index_of x (y # ys) = (if x = y then Some 0 else map_option Suc (index_of x ys))"

definition b64_value :: "char \<Rightarrow> nat option" where
  "b64_value c = index_of c b64_alphabet"

definition byte :: "nat \<Rightarrow> char" where
  "byte n = char_of n"

definition val :: "char \<Rightarrow> nat" where
  "val c = of_char c"

text \<open>\<^verbatim>\<open>EncodeToString\<close>: three bytes give four characters; one or two bytes left are padded.\<close>

fun EncodeToString :: "string \<Rightarrow> string" where
  "EncodeToString [] = []"
| "EncodeToString [a] =
     [b64_char (val a div 4), b64_char ((val a mod 4) * 16), CHR ''='', CHR ''='']"
| "EncodeToString [a, b] =
     [b64_char (val a div 4), b64_char ((val a mod 4) * 16 + val b div 16),
      b64_char ((val b mod 16) * 4), CHR ''='']"
| "EncodeToString (a # b # c # rest) =
     [b64_char (val a div 4), b64_char ((val a mod 4) * 16 + val b div 16),
      b64_char ((val b mod 16) * 4 + val c div 64), b64_char (val c mod 64)]
     @ EncodeToString rest"

text \<open>
  \<^verbatim>\<open>DecodeString\<close>, with \<open>None\<close> for its error. The decoder skips carriage returns and
  line feeds wherever they stand, then reads quanta of four characters; padding is
  accepted only in the last quantum, as \<open>xx==\<close> or \<open>xxx=\<close>, with nothing after it, and
  the bits of the last character that no byte needs are ignored. Anything else, a
  character outside the alphabet or an incomplete quantum, is an error.
\<close>

fun decode_quanta :: "string \<Rightarrow> string option" where
  "decode_quanta [] = Some []"
| "decode_quanta (a # b # c # d # rest) =
     (case (b64_value a, b64_value b) of
        (Some x, Some y) \<Rightarrow>
          (if c = CHR ''='' then
             (if d = CHR ''='' \<and> rest = [] then Some [byte (x * 4 + y div 16)] else None)
           else
             (case b64_value c of
                None \<Rightarrow> None
              | Some z \<Rightarrow>
                  (if d = CHR ''='' then
                     (if rest = []
                      then Some [byte (x * 4 + y div 16), byte ((y mod 16) * 16 + z div 4)]
                      else None)
                   else
                     (case b64_value d of
                        None \<Rightarrow> None
                      | Some w \<Rightarrow>
                          map_option
                            (\<lambda>bs. byte (x * 4 + y div 16) # byte ((y mod 16) * 16 + z div 4) #
                                   byte ((z mod 4) * 64 + w) # bs)
                            (decode_quanta rest)))))
      | _ \<Rightarrow> None)"
| "decode_quanta _ = None"

definition DecodeString :: "string \<Rightarrow> string option" where
  "DecodeString s = decode_quanta (filter (\<lambda>c. c \<noteq> CHR 0x0D \<and> c \<noteq> CHR 0x0A) s)"

text \<open>
  The gzip library (\<^verbatim>\<open>compress/gzip\<close>) is an input of the model. \<open>gzip_write\<close> is what
  \<^verbatim>\<open>NewWriterLevel(&buf, DefaultCompression)\<close>, \<^verbatim>\<open>Write\<close> and \<^verbatim>\<open>Close\<close> leave in the
  buffer, \<open>None\<close> when one of the three fails. \<open>gzip_read\<close> is \<^verbatim>\<open>NewReader\<close> followed by
  \<^verbatim>\<open>io.ReadAll\<close>: the header may be refused, the reading may fail, or the data come out.
\<close>

datatype gunzip_result = HeaderError | ReadError | Inflated string

record gzip_lib =
  gzip_write :: "string \<Rightarrow> string option"
  gzip_read :: "string \<Rightarrow> gunzip_result"

text \<open>
  What the library promises: writing succeeds, a gzip stream is never empty (it has a
  header and a trailer), and reading a written stream gives the data back.
\<close>

definition gzip_contract :: "gzip_lib \<Rightarrow> bool" where
  "gzip_contract lib \<longleftrightarrow>
     (\<forall>bs. \<exists>zs. gzip_write lib bs = Some zs \<and> zs \<noteq> [] \<and> gzip_read lib zs = Inflated bs)"

definition CompressText :: "gzip_lib \<Rightarrow> string \<Rightarrow> string" where
  "CompressText lib text =
     (if text = [] then []
      else (case gzip_write lib text of
              None \<Rightarrow> text
            | Some buf \<Rightarrow> EncodeToString buf))"

datatype decompress_error = ReadFailed

definition DecompressText :: "gzip_lib \<Rightarrow> string \<Rightarrow> string \<times> decompress_error option" where
  "DecompressText lib compressed =
     (if compressed = [] then ([], None)
      else (case DecodeString compressed of
              None \<Rightarrow> (compressed, None)
            | Some data \<Rightarrow>
                (case gzip_read lib data of
                   HeaderError \<Rightarrow> (compressed, None)
                 | ReadError \<Rightarrow> (compressed, Some ReadFailed)
                 | Inflated result \<Rightarrow> (result, None))))"

record CompressibleContent =
  Original :: string
  Compressed :: string
  IsCompressed :: bool

definition Content_Compress :: "gzip_lib \<Rightarrow> CompressibleContent \<Rightarrow> CompressibleContent" where
  "Content_Compress lib c =
     (if Original c = [] \<or> IsCompressed c then c
      else c\<lparr>Compressed := CompressText lib (Original c), IsCompressed := True\<rparr>)"

definition Content_Decompress ::
  "gzip_lib \<Rightarrow> CompressibleContent \<Rightarrow> string \<times> decompress_error option" where
  "Content_Decompress lib c =
     (if \<not> IsCompressed c then (Original c, None) else DecompressText lib (Compressed c))"

text \<open>
  A library that keeps the contract, for sample runs: it writes the two magic bytes of a
  gzip header and then the data as they are, and reads that back.
\<close>

definition stored_lib :: gzip_lib where
  "stored_lib =
     \<lparr>gzip_write = (\<lambda>bs. Some (CHR 0x1F # CHR 0x8B # bs)),
      gzip_read = (\<lambda>zs. case zs of
                           a # b # bs \<Rightarrow>
                             if a = CHR 0x1F \<and> b = CHR 0x8B then Inflated bs else HeaderError
                         | _ \<Rightarrow> HeaderError)\<rparr>"


section \<open>Properties of the tiered context\<close>

lemma removeFromSlice_absent:
  "uri \<notin> URI ` set cs \<Longrightarrow> removeFromSlice cs uri = (False, cs)"
  by (induction cs) auto

lemma removeFromSlice_fst: "fst (removeFromSlice cs uri) \<longleftrightarrow> uri \<in> URI ` set cs"
  by (induction cs) (auto split: prod.splits)

lemma removeFromSlice_count:
  "uri \<in> URI ` set cs \<Longrightarrow>
   Suc (length (filter (\<lambda>c. URI c = uri) (snd (removeFromSlice cs uri)))) =
     length (filter (\<lambda>c. URI c = uri) cs)"
  by (induction cs) (auto split: prod.splits)

lemma removeFromSlice_others:
  "filter (\<lambda>c. URI c \<noteq> uri) (snd (removeFromSlice cs uri)) = filter (\<lambda>c. URI c \<noteq> uri) cs"
  by (induction cs) (auto split: prod.splits)

lemma find_None_filter: "find P xs = None \<longleftrightarrow> filter P xs = []"
  by (induction xs) auto

lemma MoveToTier_absent:
  assumes "occurrences t uri = 0"
  shows "MoveToTier t uri tier = (False, t)"
proof -
  from assms have "uri \<notin> URI ` set (L0 t)" "uri \<notin> URI ` set (L1 t)" "uri \<notin> URI ` set (L2 t)"
    by (auto simp: occurrences_def GetAll_def filter_empty_conv)
  then show ?thesis
    by (simp add: MoveToTier_def removeFromSlice_absent)
qed

lemma removeFromSlice_cases:
  obtains (absent) "uri \<notin> URI ` set cs" "removeFromSlice cs uri = (False, cs)"
  | (present) cs' where "uri \<in> URI ` set cs" "removeFromSlice cs uri = (True, cs')"
      "Suc (length (filter (\<lambda>c. URI c = uri) cs')) = length (filter (\<lambda>c. URI c = uri) cs)"
proof (cases "uri \<in> URI ` set cs")
  case True
  then have "fst (removeFromSlice cs uri)" by (simp add: removeFromSlice_fst)
  then have "removeFromSlice cs uri = (True, snd (removeFromSlice cs uri))"
    by (cases "removeFromSlice cs uri") simp
  with True removeFromSlice_count [OF True] present show ?thesis by blast
next
  case False
  with removeFromSlice_absent absent show ?thesis by blast
qed

lemma MoveToTier_reinsert_absent:
  assumes "occurrences t uri = 0"
  shows "MoveToTier_reinsert t None uri tier = (False, t)"
proof -
  from assms have "filter (\<lambda>c. URI c = uri) (L0 t @ L1 t @ L2 t) = []"
    by (simp add: occurrences_def GetAll_def)
  then have "findContextByURIInSlices [L0 t, L1 t, L2 t] uri = None"
    by (simp add: findContextByURIInSlices_def find_None_filter)
  then show ?thesis by (simp add: MoveToTier_reinsert_def)
qed

lemma MoveToTier_unique_uri_lost:
  assumes "occurrences t uri = 1"
  shows "fst (MoveToTier t uri tier) = False \<and> occurrences (snd (MoveToTier t uri tier)) uri = 0"
proof -
  let ?n = "\<lambda>cs. length (filter (\<lambda>c. URI c = uri) cs)"
  from assms have total: "?n (L0 t) + ?n (L1 t) + ?n (L2 t) = 1"
    by (simp add: occurrences_def GetAll_def)
  show ?thesis
  proof (cases rule: removeFromSlice_cases [where uri = uri and cs = "L0 t"])
    case (present l0)
    from total present(3) have z: "?n l0 = 0" "?n (L1 t) = 0" "?n (L2 t) = 0" by linarith+
    then have "findContextByURIInSlices [l0] uri = None"
      by (simp add: findContextByURIInSlices_def find_None_filter)
    moreover from z have "occurrences (t\<lparr>L0 := l0\<rparr>) uri = 0"
      by (simp add: occurrences_def GetAll_def)
    ultimately show ?thesis
      using present(2) by (simp add: MoveToTier_def MoveToTier_reinsert_absent)
  next
    case absent
    note a0 = this
    show ?thesis
    proof (cases rule: removeFromSlice_cases [where uri = uri and cs = "L1 t"])
      case (present l1)
      from total present(3) have z: "?n (L0 t) = 0" "?n l1 = 0" "?n (L2 t) = 0" by linarith+
      then have "occurrences (t\<lparr>L1 := l1\<rparr>) uri = 0"
        by (simp add: occurrences_def GetAll_def)
      then show ?thesis
        using a0(2) present(2) by (simp add: MoveToTier_def MoveToTier_reinsert_absent)
    next
      case absent
      note a1 = this
      show ?thesis
      proof (cases rule: removeFromSlice_cases [where uri = uri and cs = "L2 t"])
        case (present l2)
        from total present(3) have z: "?n (L0 t) = 0" "?n (L1 t) = 0" "?n l2 = 0" by linarith+
        then have "occurrences (t\<lparr>L2 := l2\<rparr>) uri = 0"
          by (simp add: occurrences_def GetAll_def)
        then show ?thesis
          using a0(2) a1(2) present(2) by (simp add: MoveToTier_def MoveToTier_reinsert_absent)
      next
        case absent
        from a0(1) a1(1) absent(1) have "?n (L0 t) = 0" "?n (L1 t) = 0" "?n (L2 t) = 0"
          by (auto simp: filter_empty_conv)
        with total show ?thesis by simp
      qed
    qed
  qed
qed

text \<open>
  C1 (the part of it that holds). A URI that no tier holds: \<^verbatim>\<open>MoveToTier\<close> reports
  failure and leaves every tier unchanged. This is \<open>MoveToTier_absent\<close> above. A URI held
  exactly once is \<open>MoveToTier_unique_uri_lost\<close>: the first removal takes the context out,
  the search that follows cannot find it any more, and the operation answers false with
  the context gone from every tier.
\<close>

text \<open>
  C1. \<^verbatim>\<open>Move(u, tier)\<close> on a store that holds a context with URI \<open>u\<close> should leave that
  context in the target tier, in exactly one tier, never lost. Evaluated on a store whose
  only context sits in L1 and is moved to L0, \<^verbatim>\<open>MoveToTier\<close> returns false and the
  context is in no tier afterwards.
\<close>

theorem MoveToTier_drops_context:
  "MoveToTier \<lparr>L0 = [], L1 = [ctx_c], L2 = []\<rparr> ''viking://c'' TierL0 =
     (False, \<lparr>L0 = [], L1 = [], L2 = []\<rparr>)"
  by (simp add: MoveToTier_def MoveToTier_reinsert_def findContextByURIInSlices_def ctx_c_def)


section \<open>Properties of the context window\<close>


lemma sum_tokens_append [simp]:
  "sum_tokens cnt (xs @ ys) = sum_tokens cnt xs + sum_tokens cnt ys"
  by (simp add: sum_tokens_def)
















section \<open>Properties of the session\<close>

text \<open>
  C2 as the claim states it fails: on a session that was closed successfully,
  \<^verbatim>\<open>AddMessage\<close> returns the message and counts the turn.
\<close>

theorem AddMessage_closed_counterexample:
  "fst (Close 5 (NewSession ''id-1'' ''sid-1'' 1 ''user123'')) = None \<and>
   State closed_session = StateClosed \<and>
   MsgContent (fst (AddMessage ''id-2'' 6 7 RoleUser ''Hello'' closed_session)) = ''Hello'' \<and>
   TotalTurns closed_session = 0 \<and>
   TotalTurns (snd (AddMessage ''id-2'' 6 7 RoleUser ''Hello'' closed_session)) = 1"
  by (simp add: closed_session_def Close_def NewSession_def AddMessage_def
      StateActive_def StateClosed_def)

text \<open>
  C2, amended. After a successful \<^verbatim>\<open>Close\<close> the state is closed and \<^verbatim>\<open>closed_at\<close> is
  set, and a further \<^verbatim>\<open>Close\<close> fails with the session-closed error. \<^verbatim>\<open>AddMessage\<close> has
  no failure result: on the closed session it returns the message and increments
  \<^verbatim>\<open>total_turns\<close>, and the session stays closed with its \<^verbatim>\<open>closed_at\<close>.
\<close>

theorem Close_then_AddMessage:
  assumes "Close now s = (None, s')"
  shows "State s' = StateClosed \<and> ClosedAt s' = Some now \<and>
         fst (Close now' s') = Some ErrSessionClosed \<and>
         MsgContent (fst (AddMessage uuid now1 now2 role content s')) = content \<and>
         MsgRole (fst (AddMessage uuid now1 now2 role content s')) = role \<and>
         TotalTurns (snd (AddMessage uuid now1 now2 role content s')) = TotalTurns s' + 1 \<and>
         TotalTurns (snd (AddMessage uuid now1 now2 role content s')) \<noteq> TotalTurns s' \<and>
         State (snd (AddMessage uuid now1 now2 role content s')) = StateClosed \<and>
         ClosedAt (snd (AddMessage uuid now1 now2 role content s')) = Some now"
proof -
  from assms have open_before: "State s \<noteq> StateClosed"
    by (auto simp: Close_def split: if_splits)
  with assms have s': "s' = s\<lparr>State := StateClosed, ClosedAt := Some now, UpdatedAt := now\<rparr>"
    by (simp add: Close_def)
  show ?thesis
    by (simp add: s' Close_def AddMessage_def)
qed

theorem Close_then_AddMessage_witness:
  "Close 5 (NewSession ''id-1'' ''sid-1'' 1 ''user123'') = (None, closed_session) \<and>
   State closed_session = StateClosed \<and> ClosedAt closed_session = Some 5 \<and>
   fst (Close 9 closed_session) = Some ErrSessionClosed \<and>
   TotalTurns (snd (AddMessage ''id-2'' 6 7 RoleUser ''Hello'' closed_session)) =
     TotalTurns closed_session + 1"
proof -
  have h: "Close 5 (NewSession ''id-1'' ''sid-1'' 1 ''user123'') = (None, closed_session)"
    by (simp add: closed_session_def Close_def NewSession_def StateActive_def StateClosed_def)
  from Close_then_AddMessage [OF h, of 9 "''id-2''" 6 7 RoleUser "''Hello''"] h
  show ?thesis by simp
qed


section \<open>Properties of the memory deduper\<close>

lemma calculateSimilarity_commute: "calculateSimilarity a b = calculateSimilarity b a"
proof -
  have "length (filter (\<lambda>w. w \<in> set ys) (remdups xs)) = length (filter (\<lambda>w. w \<in> set xs) (remdups ys))"
    for xs ys :: "string list"
    by (simp add: distinct_length_filter Int_commute)
  then show ?thesis
    by (auto simp: calculateSimilarity_def Let_def add.commute)
qed

lemma insert_group_length: "length (insert_group th m gs) \<le> Suc (length gs)"
  by (induction gs) auto

lemma foldl_insert_group_length:
  "length (foldl (\<lambda>gs m. insert_group th m gs) gs ms) \<le> length gs + length ms"
proof (induction ms arbitrary: gs)
  case Nil
  then show ?case by simp
next
  case (Cons m ms)
  have "length (foldl (\<lambda>gs m. insert_group th m gs) (insert_group th m gs) ms)
          \<le> length (insert_group th m gs) + length ms"
    by (rule Cons.IH)
  also have "\<dots> \<le> Suc (length gs) + length ms"
    using insert_group_length [of th m gs] by simp
  finally show ?case by simp
qed

lemma groupSimilar_length: "length (groupSimilar th ms) \<le> length ms"
  using foldl_insert_group_length [of th "[]" ms] by (simp add: groupSimilar_def)

lemma insert_group_heads:
  "x \<in> set (map fst (insert_group th m gs)) \<Longrightarrow> x = m \<or> x \<in> set (map fst gs)"
  by (induction gs) (force split: if_splits)+

lemma dissimilar_commute: "dissimilar th x y \<longleftrightarrow> dissimilar th y x"
  by (simp add: dissimilar_def calculateSimilarity_commute)

lemma insert_group_heads_dissimilar:
  "sorted_wrt (dissimilar th) (map fst gs) \<Longrightarrow>
   sorted_wrt (dissimilar th) (map fst (insert_group th m gs))"
proof (induction gs)
  case Nil
  then show ?case by simp
next
  case (Cons g gs)
  obtain g0 rest where g: "g = (g0, rest)" by (cases g)
  show ?case
  proof (cases "calculateSimilarity (Content m) (Content g0) \<ge> th")
    case True
    with Cons.prems g show ?thesis by simp
  next
    case False
    then have "dissimilar th g0 m"
      by (simp add: dissimilar_def calculateSimilarity_commute)
    moreover have "\<forall>y\<in>set (map fst gs). dissimilar th g0 y"
      using Cons.prems g by simp
    ultimately have "\<forall>y\<in>set (map fst (insert_group th m gs)). dissimilar th g0 y"
      using insert_group_heads [of _ th m gs] by blast
    moreover have "sorted_wrt (dissimilar th) (map fst (insert_group th m gs))"
      using Cons.prems g by (intro Cons.IH) simp
    ultimately show ?thesis using False g by simp
  qed
qed

lemma foldl_insert_group_heads_dissimilar:
  "sorted_wrt (dissimilar th) (map fst gs) \<Longrightarrow>
   sorted_wrt (dissimilar th) (map fst (foldl (\<lambda>gs m. insert_group th m gs) gs ms))"
  by (induction ms arbitrary: gs) (simp_all add: insert_group_heads_dissimilar)

lemma groupSimilar_heads_dissimilar:
  "sorted_wrt (dissimilar th) (map fst (groupSimilar th ms))"
  unfolding groupSimilar_def by (rule foldl_insert_group_heads_dissimilar) simp

lemma apply_decisions_Delete: "apply_decisions i (replicate k DedupDecisionDelete) ms = []"
  by (induction k arbitrary: i ms) (case_tac ms; simp)+

lemma apply_decisions_KeepBoth:
  "0 < i \<Longrightarrow> apply_decisions i (replicate k DedupDecisionKeepBoth) ms = []"
  by (induction k arbitrary: i ms) (case_tac ms; simp)+

lemma apply_parseDecisions:
  "apply_decisions 0 (parseDecisions r (Suc k)) (g0 # rest) = [g0]"
  by (simp add: parseDecisions_def Let_def apply_decisions_Delete apply_decisions_KeepBoth)

lemma simpleMerge_loop_member: "simpleMerge_loop best ms \<in> insert best (set ms)"
  by (induction ms arbitrary: best) auto

lemma simpleMerge_member: "simpleMerge g \<in> set (members g)"
  using simpleMerge_loop_member [of "fst g" "snd g"] by (simp add: simpleMerge_def members_def)

lemma dedup_group_piece:
  "length (members g) \<ge> 2 \<Longrightarrow>
   length (dedup_group chat g) \<le> 1 \<and> set (dedup_group chat g) \<subseteq> set (members g)"
proof -
  assume "length (members g) \<ge> 2"
  then obtain k where k: "length (members g) = Suc k" "k \<ge> 1"
    by (cases "length (members g)") auto
  have m: "members g = fst g # snd g" by (simp add: members_def)
  show ?thesis
  proof (cases chat)
    case ChatError
    with k simpleMerge_member [of g] show ?thesis
      by (simp add: dedup_group_def decideMergeOrDelete_def)
  next
    case NoChoices
    with k show ?thesis by (simp add: dedup_group_def decideMergeOrDelete_def)
  next
    case (Reply r)
    have "apply_decisions 0 (parseDecisions r (Suc k)) (members g) = [fst g]"
      unfolding m by (rule apply_parseDecisions)
    with Reply k m show ?thesis by (simp add: dedup_group_def decideMergeOrDelete_def)
  qed
qed

lemma dedup_group_head:
  "length (members g) \<ge> 2 \<Longrightarrow> chat \<noteq> ChatError \<Longrightarrow> set (dedup_group chat g) \<subseteq> {fst g}"
proof -
  assume "length (members g) \<ge> 2" and ne: "chat \<noteq> ChatError"
  then obtain k where k: "length (members g) = Suc k" "k \<ge> 1"
    by (cases "length (members g)") auto
  have m: "members g = fst g # snd g" by (simp add: members_def)
  show ?thesis
  proof (cases chat)
    case ChatError
    with ne show ?thesis by simp
  next
    case NoChoices
    with k show ?thesis by (simp add: dedup_group_def decideMergeOrDelete_def)
  next
    case (Reply r)
    have "apply_decisions 0 (parseDecisions r (Suc k)) (members g) = [fst g]"
      unfolding m by (rule apply_parseDecisions)
    with Reply k m show ?thesis by (simp add: dedup_group_def decideMergeOrDelete_def)
  qed
qed

lemma dedup_groups_pieces:
  "\<exists>ps. dedup_groups llm n gs = concat ps \<and>
        list_all2 (\<lambda>p g. length p \<le> 1 \<and> set p \<subseteq> set (members g)) ps gs"
proof (induction gs arbitrary: n)
  case Nil
  show ?case by (rule exI [of _ "[]"]) simp
next
  case (Cons g gs)
  show ?case
  proof (cases "length (members g) \<le> 1")
    case True
    obtain ps where ps: "dedup_groups llm n gs = concat ps"
      "list_all2 (\<lambda>p g. length p \<le> 1 \<and> set p \<subseteq> set (members g)) ps gs"
      using Cons.IH by blast
    show ?thesis
      by (rule exI [of _ "[fst g] # ps"]) (use True ps in \<open>simp add: members_def\<close>)
  next
    case False
    obtain ps where ps: "dedup_groups llm (Suc n) gs = concat ps"
      "list_all2 (\<lambda>p g. length p \<le> 1 \<and> set p \<subseteq> set (members g)) ps gs"
      using Cons.IH by blast
    from False have "length (members g) \<ge> 2" by simp
    from dedup_group_piece [OF this, of "llm n (members g)"] 
    show ?thesis
      by (intro exI [of _ "dedup_group (llm n (members g)) g # ps"]) (use False ps in simp)
  qed
qed

lemma concat_pieces_length:
  "list_all2 (\<lambda>p g. length p \<le> 1 \<and> Q p g) ps gs \<Longrightarrow> length (concat ps) \<le> length gs"
  by (induction ps gs rule: list_all2_induct) auto

lemma dedup_groups_length: "length (dedup_groups llm n gs) \<le> length gs"
proof -
  obtain ps where ps: "dedup_groups llm n gs = concat ps"
    "list_all2 (\<lambda>p g. length p \<le> 1 \<and> set p \<subseteq> set (members g)) ps gs"
    using dedup_groups_pieces [of llm n gs] by blast
  from concat_pieces_length [OF ps(2)] ps(1) show ?thesis by simp
qed

lemma dedup_groups_heads:
  assumes "\<forall>n g. llm n g \<noteq> ChatError"
  shows "set (dedup_groups llm n gs) \<subseteq> set (map fst gs)"
proof (induction gs arbitrary: n)
  case Nil
  show ?case by simp
next
  case (Cons g gs)
  show ?case
  proof (cases "length (members g) \<le> 1")
    case True
    with Cons.IH [of n] show ?thesis by auto
  next
    case False
    then have "set (dedup_group (llm n (members g)) g) \<subseteq> {fst g}"
      using assms by (intro dedup_group_head) simp_all
    with False Cons.IH [of "Suc n"] show ?thesis by auto
  qed
qed

lemma dedup_groups_dissimilar:
  assumes "\<forall>n g. llm n g \<noteq> ChatError"
  shows "sorted_wrt (dissimilar th) (map fst gs) \<Longrightarrow>
         sorted_wrt (dissimilar th) (dedup_groups llm n gs)"
proof (induction gs arbitrary: n)
  case Nil
  show ?case by simp
next
  case (Cons g gs)
  from Cons.prems have tl: "sorted_wrt (dissimilar th) (map fst gs)"
    and hd: "\<forall>y\<in>set (map fst gs). dissimilar th (fst g) y" by simp_all
  show ?case
  proof (cases "length (members g) \<le> 1")
    case True
    from dedup_groups_heads [OF assms, of n gs] hd
    have "\<forall>y\<in>set (dedup_groups llm n gs). dissimilar th (fst g) y" by blast
    with True Cons.IH [OF tl, of n] show ?thesis by simp
  next
    case False
    then have sub: "set (dedup_group (llm n (members g)) g) \<subseteq> {fst g}"
      using assms by (intro dedup_group_head) simp_all
    from False have "length (dedup_group (llm n (members g)) g) \<le> 1"
      using dedup_group_piece [of g "llm n (members g)"] by simp
    then have one: "sorted_wrt (dissimilar th) (dedup_group (llm n (members g)) g)"
      by (cases "dedup_group (llm n (members g)) g") auto
    from dedup_groups_heads [OF assms, of "Suc n" gs] hd sub
    have "\<forall>x\<in>set (dedup_group (llm n (members g)) g).
            \<forall>y\<in>set (dedup_groups llm (Suc n) gs). dissimilar th x y" by blast
    with False one Cons.IH [OF tl, of "Suc n"] show ?thesis
      by (simp add: sorted_wrt_append)
  qed
qed

lemmas text_simps = Fields_def ToLower_def ToLower_char_def asciiSpace_def

lemma sim_xyz_yzw: "calculateSimilarity (Content mem_xyz) (Content mem_yzw) = 1 / 2"
  by (simp add: calculateSimilarity_def mem_xyz_def mem_yzw_def text_simps Let_def)

lemma sim_xy_yzw: "calculateSimilarity (Content mem_yzw) (Content mem_xy) = 1 / 4"
  by (simp add: calculateSimilarity_def mem_xy_def mem_yzw_def text_simps Let_def)

lemma sim_xy_xyz: "calculateSimilarity (Content mem_xyz) (Content mem_xy) = 2 / 3"
  by (simp add: calculateSimilarity_def mem_xy_def mem_xyz_def text_simps Let_def)

lemma groupSimilar_sample: "groupSimilar (1 / 2) [mem_xy, mem_yzw, mem_xyz] = [(mem_xy, [mem_xyz]), (mem_yzw, [])]"
  by (simp add: groupSimilar_def sim_xy_yzw sim_xy_xyz)

lemma Dedup_sample_failing:
  "Dedup (NewMemoryDeduper failing_client (1 / 2)) [mem_xy, mem_yzw, mem_xyz] = [mem_xyz, mem_yzw]"
proof -
  have "Dedup (NewMemoryDeduper failing_client (1 / 2)) [mem_xy, mem_yzw, mem_xyz] =
      dedup_groups failing_client 0 [(mem_xy, [mem_xyz]), (mem_yzw, [])]"
    by (simp add: Dedup_def NewMemoryDeduper_def groupSimilar_sample)
  also have "\<dots> = [mem_xyz, mem_yzw]"
    by (simp add: members_def dedup_group_def decideMergeOrDelete_def failing_client_def
        simpleMerge_def mem_xy_def mem_xyz_def)
  finally show ?thesis .
qed

lemma Dedup_sample_merging:
  "Dedup (NewMemoryDeduper merging_client (1 / 2)) [mem_xy, mem_yzw, mem_xyz] = [mem_xy, mem_yzw]"
proof -
  have "Dedup (NewMemoryDeduper merging_client (1 / 2)) [mem_xy, mem_yzw, mem_xyz] =
      dedup_groups merging_client 0 [(mem_xy, [mem_xyz]), (mem_yzw, [])]"
    by (simp add: Dedup_def NewMemoryDeduper_def groupSimilar_sample)
  also have "\<dots> = [mem_xy, mem_yzw]"
    by (simp add: members_def dedup_group_def decideMergeOrDelete_def merging_client_def
        parseDecisions_def ToLower_def ToLower_char_def Let_def)
  finally show ?thesis .
qed

text \<open>
  C8 as the claim states it fails. With threshold 1/2 and a provider whose call fails,
  the memories \<open>x y\<close>, \<open>y z w\<close>, \<open>X Y z\<close> form the groups (\<open>x y\<close>, \<open>X Y z\<close>) and
  (\<open>y z w\<close>); the fallback keeps \<open>X Y z\<close>, the more important member of the first
  group, and the result holds both \<open>X Y z\<close> and \<open>y z w\<close>, whose similarity is 1/2.
\<close>

theorem Dedup_similar_pair_counterexample:
  "threshold (NewMemoryDeduper failing_client (1 / 2)) = 1 / 2 \<and>
   calculateSimilarity (Content mem_xyz) (Content mem_yzw) \<ge> 1 / 2 \<and>
   Dedup (NewMemoryDeduper failing_client (1 / 2)) [mem_xy, mem_yzw, mem_xyz] = [mem_xyz, mem_yzw]"
  using Dedup_sample_failing sim_xyz_yzw by (simp add: NewMemoryDeduper_def)

text \<open>
  C8, amended. \<^verbatim>\<open>Dedup(M)\<close> is no longer than \<open>M\<close>; it is made of at most one memory
  from each group of \<^verbatim>\<open>groupSimilar\<close> (a memory joins the first group whose first member
  is similar to it at the threshold, and starts a new group otherwise); and when no call
  of the provider fails, no two memories of the result have a content similarity at or
  above the threshold.
\<close>

theorem Dedup_one_per_group:
  "length (Dedup d M) \<le> length M \<and>
   (\<exists>ps. Dedup d M = concat ps \<and>
      list_all2 (\<lambda>p g. length p \<le> 1 \<and> set p \<subseteq> set (members g)) ps
        (groupSimilar (threshold d) M)) \<and>
   ((\<forall>n g. client d n g \<noteq> ChatError) \<longrightarrow>
      (\<forall>i j. i < j \<and> j < length (Dedup d M) \<longrightarrow>
         calculateSimilarity (Content (Dedup d M ! i)) (Content (Dedup d M ! j)) < threshold d))"
proof (cases "length M \<le> 1")
  case True
  then consider "M = []" | m where "M = [m]"
    by (cases M) (auto simp: length_Suc_conv)
  then show ?thesis
  proof cases
    case 1
    then show ?thesis by (simp add: Dedup_def groupSimilar_def)
  next
    case 2
    have "Dedup d M = concat [[m]] \<and>
        list_all2 (\<lambda>p g. length p \<le> 1 \<and> set p \<subseteq> set (members g)) [[m]] (groupSimilar (threshold d) M)"
      using 2 by (simp add: Dedup_def groupSimilar_def members_def)
    then have "\<exists>ps. Dedup d M = concat ps \<and>
        list_all2 (\<lambda>p g. length p \<le> 1 \<and> set p \<subseteq> set (members g)) ps (groupSimilar (threshold d) M)"
      by blast
    with 2 show ?thesis by (simp add: Dedup_def)
  qed
next
  case False
  let ?gs = "groupSimilar (threshold d) M"
  from False have D: "Dedup d M = dedup_groups (client d) 0 ?gs"
    by (simp add: Dedup_def)
  have len: "length (Dedup d M) \<le> length M"
    using dedup_groups_length [of "client d" 0 ?gs] groupSimilar_length [of "threshold d" M] D
    by simp
  have pieces: "\<exists>ps. Dedup d M = concat ps \<and>
      list_all2 (\<lambda>p g. length p \<le> 1 \<and> set p \<subseteq> set (members g)) ps ?gs"
    unfolding D by (rule dedup_groups_pieces)
  have pairs: "\<forall>i j. i < j \<and> j < length (Dedup d M) \<longrightarrow>
         calculateSimilarity (Content (Dedup d M ! i)) (Content (Dedup d M ! j)) < threshold d"
    if ok: "\<forall>n g. client d n g \<noteq> ChatError"
  proof -
    have "sorted_wrt (dissimilar (threshold d)) (Dedup d M)"
      unfolding D using ok groupSimilar_heads_dissimilar by (rule dedup_groups_dissimilar)
    then show ?thesis
      by (auto simp: sorted_wrt_iff_nth_less dissimilar_def)
  qed
  from len pieces pairs show ?thesis by blast
qed

theorem Dedup_one_per_group_witness:
  "(\<forall>n g. client (NewMemoryDeduper merging_client (1 / 2)) n g \<noteq> ChatError) \<and>
   Dedup (NewMemoryDeduper merging_client (1 / 2)) [mem_xy, mem_yzw, mem_xyz] = [mem_xy, mem_yzw] \<and>
   length (Dedup (NewMemoryDeduper merging_client (1 / 2)) [mem_xy, mem_yzw, mem_xyz])
     \<le> length [mem_xy, mem_yzw, mem_xyz] \<and>
   calculateSimilarity (Content mem_xy) (Content mem_yzw)
     < threshold (NewMemoryDeduper merging_client (1 / 2))"
proof -
  let ?d = "NewMemoryDeduper merging_client (1 / 2)"
  let ?M = "[mem_xy, mem_yzw, mem_xyz]"
  have ok: "\<forall>n g. client ?d n g \<noteq> ChatError"
    by (simp add: NewMemoryDeduper_def merging_client_def)
  have out: "Dedup ?d ?M = [mem_xy, mem_yzw]"
    by (rule Dedup_sample_merging)
  from Dedup_one_per_group [of ?d ?M] ok
  have pairs: "\<forall>i j. i < j \<and> j < length (Dedup ?d ?M) \<longrightarrow>
          calculateSimilarity (Content (Dedup ?d ?M ! i)) (Content (Dedup ?d ?M ! j)) < threshold ?d"
    by blast
  have "(0::nat) < 1 \<and> 1 < length (Dedup ?d ?M)"
    by (simp add: out)
  with pairs have "calculateSimilarity (Content (Dedup ?d ?M ! 0)) (Content (Dedup ?d ?M ! 1)) < threshold ?d"
    by blast
  then have "calculateSimilarity (Content mem_xy) (Content mem_yzw) < threshold ?d"
    by (simp add: out)
  with ok out show ?thesis by simp
qed

text \<open>
  C9. Two memories merge exactly when their categories are equal; the merged memory
  then has importance \<open>min(1, 0.9 * (a.importance + b.importance))\<close>, and two memories of
  different categories are rejected with an error.
\<close>

theorem MergeMemories_importance:
  "(Category a = Category b \<longrightarrow>
      (\<exists>m. MergeMemories a b = Inr m \<and>
           Importance m = min 1 (9 / 10 * (Importance a + Importance b)) \<and>
           Category m = Category a)) \<and>
   (Category a \<noteq> Category b \<longrightarrow> MergeMemories a b = Inl DifferentCategories)"
  by (simp add: MergeMemories_def Let_def mult.commute)

theorem MergeMemories_importance_witness:
  "Category mem_event = Category mem_event \<and>
   MergeMemories mem_event mem_event = Inr (mem_event\<lparr>Importance := 54 / 100\<rparr>) \<and>
   MergeMemories mem_xy mem_yzw = Inr (mem_yzw\<lparr>Importance := 1\<rparr>) \<and>
   Category mem_xy \<noteq> Category mem_event \<and>
   MergeMemories mem_xy mem_event = Inl DifferentCategories"
proof -
  have same: "Category mem_xy = Category mem_yzw"
    by (simp add: mem_xy_def mem_yzw_def)
  have diff: "Category mem_xy \<noteq> Category mem_event"
    by (simp add: mem_xy_def mem_event_def)
  have m1: "MergeMemories mem_xy mem_yzw = Inr (mem_yzw\<lparr>Importance := 1\<rparr>)"
    by (simp add: MergeMemories_def mem_xy_def mem_yzw_def Let_def)
  have m3: "MergeMemories mem_event mem_event = Inr (mem_event\<lparr>Importance := 54 / 100\<rparr>)"
    by (simp add: MergeMemories_def mem_event_def Let_def)
  from MergeMemories_importance [of mem_xy mem_event] diff m1 m3 show ?thesis
    by simp
qed


section \<open>Properties of the hierarchical retriever\<close>

lemma getTopK_take: "getTopK results k = take k results"
  by (simp add: getTopK_def)

lemma heap_Push_two:
  "heap_Push (heap_Push [] x) y = (if ResScore y < ResScore x then [y, x] else [x, y])"
  by (simp add: heap_Push_def up.simps [of _ 0] up.simps [of _ "Suc 0"] Less_def Swap_def)

text \<open>Of two queued directories the one with the lower score is popped first.\<close>

lemma heap_Pop_two:
  "heap_Pop (heap_Push (heap_Push [] x) y) =
     (if ResScore y < ResScore x then Some (y, [x]) else Some (x, [y]))"
  by (simp add: heap_Push_two heap_Pop_def down.simps [of _ 0] Swap_def Less_def)

lemma sample_startingPoints:
  "startingPointsFor sample_retriever (Some [1]) sample_query sample_options =
     [\<lparr>ItemURI = ''viking://resources/docs'', ItemScore = 9 / 10\<rparr>,
      \<lparr>ItemURI = ''viking://resources'', ItemScore = 0\<rparr>]"
  by code_simp

text \<open>
  The whole traversal of the sample store, never cancelled: the root is searched first,
  with score 0, then \<open>docs\<close> through its queue entry of score 0.4, while its entry of
  score 0.9 from the global search waits until last.
\<close>

lemma sample_traversal:
  "map_option (\<lambda>(st, e). (nodes st, collected st, e))
     (recursiveSearch sample_retriever (Some [1]) sample_options (\<lambda>i. False) 10
        (startingPointsFor sample_retriever (Some [1]) sample_query sample_options)) =
   Some ([(''viking://resources'', 0, 0), (''viking://resources/docs'', 1, 4 / 10)],
         [cand_intro, cand_docs], None)"
  by code_simp

text \<open>
  C3. The frontier should be a max-heap that pops the highest-scored URI. With the
  starting points of the sample query, \<open>docs\<close> with score 0.9 from the global search and
  the root directory with score 0, the queue built by \<^verbatim>\<open>heap.Push\<close> has the root on
  top, and \<^verbatim>\<open>heap.Pop\<close> returns the root, the lowest score, leaving \<open>docs\<close> queued.
\<close>

theorem frontier_pops_lowest_score:
  "dirQueue (initial_state
     (startingPointsFor sample_retriever (Some [1]) sample_query sample_options)) =
     [item_root, item_docs] \<and>
   heap_Pop [item_root, item_docs] = Some (item_root, [item_docs]) \<and>
   ResScore item_root < ResScore item_docs"
  by code_simp

text \<open>
  C4. The convergence check should take the top-limit candidates by score. On the four
  candidates that the sample traversal has collected after its second directory,
  \<^verbatim>\<open>getTopK\<close> with limit 2 returns the first two in the order of collection, \<open>docs\<close> and
  \<open>api\<close>, although \<open>intro\<close> and \<open>guide\<close> both score higher than \<open>api\<close>.
\<close>

theorem getTopK_is_collection_order:
  "getTopK [cand_docs, cand_api, cand_guide, cand_intro] 2 = [cand_docs, cand_api] \<and>
   CandScore cand_api < CandScore cand_guide \<and>
   CandScore cand_api < CandScore cand_intro"
  by (simp add: getTopK_def cand_api_def cand_guide_def cand_intro_def)

text \<open>
  The rest of the convergence check is as C4 says: the rounds are incremented exactly
  when the set of the current candidates equals the previous one and has at least
  \<^verbatim>\<open>limit\<close> elements, and are reset otherwise; the loop breaks exactly when the
  incremented rounds reach \<^verbatim>\<open>MaxConvergenceRounds\<close>.
\<close>

lemma mapsEqual_iff: "finite b \<Longrightarrow> mapsEqual a b \<longleftrightarrow> a = b"
  unfolding mapsEqual_def using card_subset_eq [of b a] by blast

lemma convergence_check_rounds:
  "convergenceRounds (snd (convergence_check cfg opts st)) =
     (if mapsEqual (CandURI ` set (getTopK (collected st) (Limit opts))) (prevTopKURIs st)
         \<and> Limit opts \<le> card (CandURI ` set (getTopK (collected st) (Limit opts)))
      then convergenceRounds st + 1 else 0)"
  by (simp add: convergence_check_def Let_def)

lemma convergence_check_stop:
  "fst (convergence_check cfg opts st) \<longleftrightarrow>
     mapsEqual (CandURI ` set (getTopK (collected st) (Limit opts))) (prevTopKURIs st)
     \<and> Limit opts \<le> card (CandURI ` set (getTopK (collected st) (Limit opts)))
     \<and> MaxConvergenceRounds cfg \<le> convergenceRounds st + 1"
  by (auto simp: convergence_check_def Let_def)

text \<open>The only error that the traversal loop reports is the cancellation.\<close>

lemma search_loop_error:
  "search_loop hr qv opts cancelled fuel i st = Some (st', Some err) \<Longrightarrow>
   err = Cancelled \<and> (\<exists>j\<ge>i. cancelled j)"
proof (induction fuel arbitrary: i st)
  case 0
  then show ?case by simp
next
  case (Suc fuel)
  show ?case
  proof (cases "dirQueue st = [] \<or> cancelled i")
    case True
    with Suc.prems show ?thesis by (auto split: if_splits)
  next
    case False
    have "\<exists>st1. search_loop hr qv opts cancelled fuel (Suc i) st1 = Some (st', Some err)"
      using Suc.prems False
      by (auto simp: Let_def split: option.splits prod.splits if_splits)
    then obtain st1 where "search_loop hr qv opts cancelled fuel (Suc i) st1 = Some (st', Some err)"
      by blast
    from Suc.IH [OF this] show ?thesis
      by (meson Suc_leD)
  qed
qed

text \<open>
  Whenever the traversal reports an error, \<^verbatim>\<open>Retrieve\<close> returns the wrapped error and
  nothing of what the traversal handed back.
\<close>

lemma Retrieve_wraps_error:
  assumes "embedQuery hr query = Some qv"
    and "recursiveSearch hr qv opts cancelled fuel (startingPointsFor hr qv query opts)
           = Some (st, Some err)"
  shows "Retrieve hr cancelled fuel query opts = Some (Inl (RecursiveSearchFailed Cancelled))"
proof -
  from assms(2) have "err = Cancelled \<and> (\<exists>j\<ge>0. cancelled j)"
    unfolding recursiveSearch_def by (rule search_loop_error)
  with assms show ?thesis by (simp add: Retrieve_def)
qed

text \<open>
  C5. A retrieval whose cancellation token fires mid-traversal should still return to
  its caller the candidates collected up to that point. On the sample store, with the
  token ready at the second check, the traversal has collected \<open>docs\<close> and \<open>api\<close>, and
  \<^verbatim>\<open>recursiveSearch\<close> returns these two together with the cancellation error; \<^verbatim>\<open>Retrieve\<close>
  returns the wrapped error alone, and the two candidates are lost to the caller.
\<close>

theorem Retrieve_cancelled_drops_candidates:
  "map_option (\<lambda>(st, e). (collected st, e))
     (recursiveSearch sample_retriever (Some [1]) sample_options (\<lambda>i. i = 1) 10
        (startingPointsFor sample_retriever (Some [1]) sample_query sample_options)) =
     Some ([cand_docs, cand_api], Some Cancelled) \<and>
   embedQuery sample_retriever sample_query = Some (Some [1]) \<and>
   Retrieve sample_retriever (\<lambda>i. i = 1) 10 sample_query sample_options =
     Some (Inl (RecursiveSearchFailed Cancelled))"
  by code_simp


section \<open>Properties of the text compression\<close>

lemma index_of_nth: "distinct xs \<Longrightarrow> i < length xs \<Longrightarrow> index_of (xs ! i) xs = Some i"
proof (induction xs arbitrary: i)
  case Nil
  then show ?case by simp
next
  case (Cons x xs)
  then show ?case by (cases i) auto
qed

lemma b64_alphabet_length: "length b64_alphabet = 64"
  by (simp add: b64_alphabet_def)

lemma b64_alphabet_distinct: "distinct b64_alphabet"
  by (simp add: b64_alphabet_def)

lemma b64_value_char: "n < 64 \<Longrightarrow> b64_value (b64_char n) = Some n"
  by (simp add: b64_value_def b64_char_def index_of_nth b64_alphabet_distinct b64_alphabet_length)

lemma b64_char_in: "n < 64 \<Longrightarrow> b64_char n \<in> set b64_alphabet"
  by (simp add: b64_char_def b64_alphabet_length)

lemma b64_char_plain:
  assumes "n < 64"
  shows "b64_char n \<noteq> CHR ''=''" "b64_char n \<noteq> CHR 0x0D" "b64_char n \<noteq> CHR 0x0A"
proof -
  have "CHR ''='' \<notin> set b64_alphabet" "CHR 0x0D \<notin> set b64_alphabet" "CHR 0x0A \<notin> set b64_alphabet"
    by (simp_all add: b64_alphabet_def)
  with b64_char_in [OF assms] show "b64_char n \<noteq> CHR ''=''" "b64_char n \<noteq> CHR 0x0D"
    "b64_char n \<noteq> CHR 0x0A" by auto
qed


lemma val_less: "val c < 256"
  by (simp add: val_def)

lemma byte_val: "byte (val c) = c"
  by (simp add: byte_def val_def)

lemma decode_quad:
  assumes "x < 64" "y < 64" "z < 64" "w < 64"
  shows "decode_quanta (b64_char x # b64_char y # b64_char z # b64_char w # rest) =
     map_option (\<lambda>bs. byte (x * 4 + y div 16) # byte ((y mod 16) * 16 + z div 4) #
                        byte ((z mod 4) * 64 + w) # bs) (decode_quanta rest)"
  using assms by (simp add: b64_value_char b64_char_plain)

lemma decode_pad1:
  assumes "x < 64" "y < 64" "z < 64"
  shows "decode_quanta [b64_char x, b64_char y, b64_char z, CHR ''=''] =
     Some [byte (x * 4 + y div 16), byte ((y mod 16) * 16 + z div 4)]"
  using assms by (simp add: b64_value_char b64_char_plain)

lemma decode_pad2:
  assumes "x < 64" "y < 64"
  shows "decode_quanta [b64_char x, b64_char y, CHR ''='', CHR ''=''] = Some [byte (x * 4 + y div 16)]"
  using assms by (simp add: b64_value_char)

lemma div_bound: "(n::nat) < k * m \<Longrightarrow> 0 < m \<Longrightarrow> n div m < k"
  by (simp add: less_mult_imp_div_less)

lemma sextets:
  fixes a b c :: nat
  assumes "a < 256" "b < 256" "c < 256"
  shows "a div 4 < 64" "(a mod 4) * 16 + b div 16 < 64" "(b mod 16) * 4 + c div 64 < 64"
    "c mod 64 < 64" "(a mod 4) * 16 < 64" "(b mod 16) * 4 < 64"
proof -
  have a4: "a mod 4 < 4" and b16: "b mod 16 < 16" by simp_all
  have bd: "b div 16 < 16" and cd: "c div 64 < 4" and ad: "a div 4 < 64"
    using assms by (simp_all add: div_bound)
  show "a div 4 < 64" by (rule ad)
  show "(a mod 4) * 16 + b div 16 < 64" using a4 bd by linarith
  show "(b mod 16) * 4 + c div 64 < 64" using b16 cd by linarith
  show "c mod 64 < 64" by simp
  show "(a mod 4) * 16 < 64" using a4 by linarith
  show "(b mod 16) * 4 < 64" using b16 by linarith
qed

lemma regroup:
  fixes a b c :: nat
  assumes "a < 256" "b < 256" "c < 256"
  shows "(a div 4) * 4 + ((a mod 4) * 16 + b div 16) div 16 = a"
    "(((a mod 4) * 16 + b div 16) mod 16) * 16 + ((b mod 16) * 4 + c div 64) div 4 = b"
    "(((b mod 16) * 4 + c div 64) mod 4) * 64 + c mod 64 = c"
    "(a div 4) * 4 + ((a mod 4) * 16) div 16 = a"
    "(((a mod 4) * 16 + b div 16) mod 16) * 16 + ((b mod 16) * 4) div 4 = b"
proof -
  have bd: "b div 16 < 16" and cd: "c div 64 < 4"
    using assms by (simp_all add: div_bound)
  have 1: "((a mod 4) * 16 + b div 16) div 16 = a mod 4" using bd by simp
  have 2: "((a mod 4) * 16 + b div 16) mod 16 = b div 16" using bd by simp
  have 3: "((b mod 16) * 4 + c div 64) div 4 = b mod 16" using cd by simp
  have 4: "((b mod 16) * 4 + c div 64) mod 4 = c div 64" using cd by simp
  show "(a div 4) * 4 + ((a mod 4) * 16 + b div 16) div 16 = a" by (simp only: 1 div_mult_mod_eq)
  show "(((a mod 4) * 16 + b div 16) mod 16) * 16 + ((b mod 16) * 4 + c div 64) div 4 = b"
    by (simp only: 2 3 div_mult_mod_eq)
  show "(((b mod 16) * 4 + c div 64) mod 4) * 64 + c mod 64 = c" by (simp only: 4 div_mult_mod_eq)
  show "(a div 4) * 4 + ((a mod 4) * 16) div 16 = a" by simp
  show "(((a mod 4) * 16 + b div 16) mod 16) * 16 + ((b mod 16) * 4) div 4 = b"
  proof -
    have 5: "((b mod 16) * 4) div 4 = b mod 16" by simp
    show ?thesis by (simp only: 2 5 div_mult_mod_eq)
  qed
qed

lemma decode_encode: "decode_quanta (EncodeToString bs) = Some bs"
proof (induction bs rule: EncodeToString.induct)
  case 1
  show ?case by simp
next
  case (2 a)
  have "decode_quanta [b64_char (val a div 4), b64_char ((val a mod 4) * 16), CHR ''='', CHR ''='']
      = Some [byte ((val a div 4) * 4 + ((val a mod 4) * 16) div 16)]"
    by (rule decode_pad2) (use sextets [of "val a" "val a" "val a", OF val_less val_less val_less] in simp_all)
  also have "\<dots> = Some [a]"
    by (simp only: regroup(4) [of "val a" "val b" "val c", OF val_less val_less val_less] byte_val)
  finally show ?case by simp
next
  case (3 a b)
  note s = sextets [of "val a" "val b" "val b", OF val_less val_less val_less]
  have "decode_quanta [b64_char (val a div 4), b64_char ((val a mod 4) * 16 + val b div 16),
        b64_char ((val b mod 16) * 4), CHR ''='']
      = Some [byte ((val a div 4) * 4 + ((val a mod 4) * 16 + val b div 16) div 16),
              byte ((((val a mod 4) * 16 + val b div 16) mod 16) * 16 + ((val b mod 16) * 4) div 4)]"
    by (rule decode_pad1) (use s in simp_all)
  also have "\<dots> = Some [a, b]"
    by (simp only: regroup(1,5) [of "val a" "val b" "val c", OF val_less val_less val_less] byte_val)
  finally show ?case by simp
next
  case (4 a b c rest)
  note s = sextets [of "val a" "val b" "val c", OF val_less val_less val_less]
  let ?x = "val a div 4" and ?y = "(val a mod 4) * 16 + val b div 16"
  let ?z = "(val b mod 16) * 4 + val c div 64" and ?w = "val c mod 64"
  have "decode_quanta (b64_char ?x # b64_char ?y # b64_char ?z # b64_char ?w # EncodeToString rest)
      = map_option (\<lambda>bs. byte (?x * 4 + ?y div 16) # byte ((?y mod 16) * 16 + ?z div 4) #
                          byte ((?z mod 4) * 64 + ?w) # bs) (decode_quanta (EncodeToString rest))"
    by (rule decode_quad) (use s in simp_all)
  also have "\<dots> = Some (byte (?x * 4 + ?y div 16) # byte ((?y mod 16) * 16 + ?z div 4) #
                          byte ((?z mod 4) * 64 + ?w) # rest)"
    by (simp add: "4.IH")
  also have "\<dots> = Some (a # b # c # rest)"
    by (simp only: regroup(1,2,3) [of "val a" "val b" "val c", OF val_less val_less val_less] byte_val)
  finally show ?case by simp
qed

lemma encode_plain:
  "filter (\<lambda>c. c \<noteq> CHR 0x0D \<and> c \<noteq> CHR 0x0A) (EncodeToString bs) = EncodeToString bs"
proof (induction bs rule: EncodeToString.induct)
  case 1
  show ?case by simp
next
  case (2 a)
  show ?case using sextets [of "val a" "val a" "val a", OF val_less val_less val_less]
    by (simp add: b64_char_plain)
next
  case (3 a b)
  show ?case using sextets [of "val a" "val b" "val b", OF val_less val_less val_less]
    by (simp add: b64_char_plain)
next
  case (4 a b c rest)
  show ?case using sextets [of "val a" "val b" "val c", OF val_less val_less val_less] "4.IH"
    by (simp add: b64_char_plain)
qed

lemma DecodeString_EncodeToString: "DecodeString (EncodeToString bs) = Some bs"
  by (simp add: DecodeString_def encode_plain decode_encode)

lemma EncodeToString_length: "length (EncodeToString bs) mod 4 = 0"
  by (induction bs rule: EncodeToString.induct) simp_all

lemma EncodeToString_empty: "EncodeToString bs = [] \<longleftrightarrow> bs = []"
  by (cases bs rule: EncodeToString.cases) simp_all


lemma CompressText_contract:
  assumes "gzip_contract lib" and "x \<noteq> []"
  obtains zs where "gzip_write lib x = Some zs" "zs \<noteq> []" "gzip_read lib zs = Inflated x"
    "CompressText lib x = EncodeToString zs"
proof -
  from assms(1) obtain zs where zs: "gzip_write lib x = Some zs" "zs \<noteq> []"
    "gzip_read lib zs = Inflated x"
    unfolding gzip_contract_def by blast
  with assms(2) have "CompressText lib x = EncodeToString zs"
    by (simp add: CompressText_def)
  with zs that show thesis by blast
qed

lemma DecompressText_CompressText_eq:
  assumes "gzip_contract lib"
  shows "DecompressText lib (CompressText lib x) = (x, None)"
proof (cases "x = []")
  case True
  then show ?thesis by (simp add: CompressText_def DecompressText_def)
next
  case False
  from assms False obtain zs where zs: "zs \<noteq> []" "gzip_read lib zs = Inflated x"
    "CompressText lib x = EncodeToString zs"
    by (rule CompressText_contract)
  from zs(1) have "EncodeToString zs \<noteq> []" by (simp add: EncodeToString_empty)
  with zs show ?thesis
    by (simp add: DecompressText_def DecodeString_EncodeToString)
qed

lemma DecodeString_hello: "DecodeString ''hello'' = None"
  by (simp add: DecodeString_def b64_value_def b64_alphabet_def)

lemma CompressText_not_hello:
  assumes "gzip_contract lib"
  shows "CompressText lib y \<noteq> ''hello''"
proof (cases "y = []")
  case True
  then show ?thesis by (simp add: CompressText_def)
next
  case False
  from assms False obtain zs where zs: "CompressText lib y = EncodeToString zs"
    by (rule CompressText_contract)
  have len: "length (CompressText lib y) mod 4 = 0"
    unfolding zs by (rule EncodeToString_length)
  show ?thesis
  proof
    assume "CompressText lib y = ''hello''"
    then have "length (CompressText lib y) = 5" by simp
    with len show False by simp
  qed
qed

lemma CompressText_inj:
  assumes "gzip_contract lib" and "CompressText lib x = CompressText lib y"
  shows "x = y"
proof -
  have "(x, None) = DecompressText lib (CompressText lib x)"
    by (simp only: DecompressText_CompressText_eq [OF assms(1)])
  also have "\<dots> = DecompressText lib (CompressText lib y)"
    by (simp only: assms(2))
  also have "\<dots> = (y, None)"
    by (simp only: DecompressText_CompressText_eq [OF assms(1)])
  finally show ?thesis by simp
qed

lemma CompressText_not_idempotent:
  assumes "gzip_contract lib"
  shows "CompressText lib (CompressText lib ''hello'') \<noteq> CompressText lib ''hello''"
proof
  assume "CompressText lib (CompressText lib ''hello'') = CompressText lib ''hello''"
  with assms have "CompressText lib ''hello'' = ''hello''" by (rule CompressText_inj)
  with CompressText_not_hello [OF assms] show False by blast
qed

lemma stored_lib_contract: "gzip_contract stored_lib"
  by (simp add: gzip_contract_def stored_lib_def)

lemma stored_hi: "CompressText stored_lib ''hi'' = ''H4toaQ==''"
  by code_simp

text \<open>
  C7 as the claim states it fails. The text \<open>hello\<close> is not base64, so
  \<^verbatim>\<open>DecompressText\<close> returns it as it is; \<^verbatim>\<open>CompressText\<close> of it is the base64 text of a
  gzip stream, whose length is a multiple of four, and so is not \<open>hello\<close>. This holds
  for every gzip library that keeps its contract.
\<close>

theorem CompressText_roundtrip_counterexample:
  "\<not> (\<exists>lib. gzip_contract lib \<and>
          CompressText lib (fst (DecompressText lib ''hello'')) = ''hello'')"
proof
  assume "\<exists>lib. gzip_contract lib \<and> CompressText lib (fst (DecompressText lib ''hello'')) = ''hello''"
  then obtain lib where c: "gzip_contract lib"
    and e: "CompressText lib (fst (DecompressText lib ''hello'')) = ''hello''" by blast
  from CompressText_not_hello [OF c] e show False by blast
qed

text \<open>
  C7, amended. With a gzip library whose reader gives back what its writer wrote,
  \<^verbatim>\<open>DecompressText(CompressText(x))\<close> is \<open>x\<close> with no error for every text \<open>x\<close>:
  compression is reversible, and \<^verbatim>\<open>Compress(Decompress(y)) == y\<close> holds for every \<open>y\<close>
  that \<^verbatim>\<open>CompressText\<close> produced. \<^verbatim>\<open>CompressText\<close> is not idempotent (compressing
  \<open>hello\<close> twice differs from compressing it once); \<^verbatim>\<open>CompressibleContent.Compress\<close>
  is, through its \<^verbatim>\<open>IsCompressed\<close> flag, and a fresh content decompresses to its
  original.
\<close>

theorem DecompressText_CompressText:
  assumes "gzip_contract lib"
  shows "DecompressText lib (CompressText lib x) = (x, None) \<and>
         CompressText lib (fst (DecompressText lib (CompressText lib x))) = CompressText lib x \<and>
         CompressText lib (CompressText lib ''hello'') \<noteq> CompressText lib ''hello'' \<and>
         Content_Compress lib (Content_Compress lib c) = Content_Compress lib c \<and>
         Content_Decompress lib
           (Content_Compress lib \<lparr>Original = x, Compressed = [], IsCompressed = False\<rparr>) = (x, None)"
proof -
  note rt = DecompressText_CompressText_eq [OF assms]
  have idem: "Content_Compress lib (Content_Compress lib c) = Content_Compress lib c"
    by (simp add: Content_Compress_def)
  have content: "Content_Decompress lib
      (Content_Compress lib \<lparr>Original = x, Compressed = [], IsCompressed = False\<rparr>) = (x, None)"
    by (simp add: Content_Compress_def Content_Decompress_def rt)
  from rt CompressText_not_idempotent [OF assms] idem content show ?thesis by simp
qed

theorem DecompressText_CompressText_witness:
  "gzip_contract stored_lib \<and>
   CompressText stored_lib ''hi'' = ''H4toaQ=='' \<and>
   DecompressText stored_lib ''H4toaQ=='' = (''hi'', None)"
  using DecompressText_CompressText [OF stored_lib_contract, of "''hi''"] stored_lib_contract stored_hi
  by simp


end
